theory Spec2Isabelle
  imports Complex_Main
begin

section \<open>Snow Tracker: the period-of-record analytics engine\<close>

text \<open>
  A shallow embedding of \<^verbatim>\<open>linearRegression\<close>, \<^verbatim>\<open>dateToWY\<close>, \<^verbatim>\<open>dateToDOWY\<close>,
  \<^verbatim>\<open>waterYearDates\<close> and \<^verbatim>\<open>computeAnalytics\<close> of \<^verbatim>\<open>src/App.tsx\<close>.

  Conventions of the model:
  \<^item> A JavaScript \<^verbatim>\<open>number\<close> is a \<open>real\<close>, and every arithmetic operation of the code
    is the exact operation followed by rounding to the nearest double (\<open>fadd\<close>, \<open>fsub\<close>,
    \<open>fmul\<close>, \<open>fdiv\<close> below). Comparisons are exact. \<^verbatim>\<open>NaN\<close>, the infinities and the
    reduced precision of subnormal numbers are not represented. Integer-valued numbers
    (water years, day counts, the results of \<^verbatim>\<open>Math.round\<close>, array lengths) are \<open>int\<close>
    or \<open>nat\<close>.
  \<^item> \<^verbatim>\<open>number | null\<close> and \<^verbatim>\<open>string | null\<close> are \<open>option\<close> types.
  \<^item> A date string has the form \<^verbatim>\<open>YYYY-MM-DD\<close> (the callers keep only rows matching
    \<^verbatim>\<open>/^\d{4}-\d{2}-\d{2}$/\<close>) and is modelled by its three numbers. On strings of
    this form \<^verbatim>\<open>localeCompare\<close> and \<^verbatim>\<open>>=\<close> are the lexicographic order on
    (year, month, day).
  \<^item> The wall clock (\<^verbatim>\<open>new Date()\<close>) and the time zone of the runtime are explicit
    arguments of every function that reads them.
  \<^item> The numbers of an input are arbitrary reals; those that the program reads are
    doubles. A literal of the code stands for the double nearest to it; the literals
    compared with (0, 1, 3, 5, 10, 60) are doubles themselves, except \<^verbatim>\<open>0.15\<close>, whose
    double is the largest one below 0.15, so that a double exceeds the one exactly
    when it exceeds the other.
\<close>

subsection \<open>Dates\<close>

datatype date = Date (year: int) (month: nat) (day: nat)

instantiation date :: linorder
begin

definition less_eq_date :: "date \<Rightarrow> date \<Rightarrow> bool" where
  "less_eq_date a b \<longleftrightarrow>
     year a < year b \<or> (year a = year b \<and> (month a < month b \<or> (month a = month b \<and> day a \<le> day b)))"

definition less_date :: "date \<Rightarrow> date \<Rightarrow> bool" where
  "less_date a b \<longleftrightarrow>
     year a < year b \<or> (year a = year b \<and> (month a < month b \<or> (month a = month b \<and> day a < day b)))"

instance
proof
  fix x y z :: date
  show "(x < y) = (x \<le> y \<and> \<not> y \<le> x)"
    by (auto simp: less_eq_date_def less_date_def)
  show "x \<le> x"
    by (simp add: less_eq_date_def)
  show "x \<le> y \<Longrightarrow> y \<le> z \<Longrightarrow> x \<le> z"
    by (auto simp: less_eq_date_def)
  show "x \<le> y \<Longrightarrow> y \<le> x \<Longrightarrow> x = y"
    by (cases x; cases y) (auto simp: less_eq_date_def)
  show "x \<le> y \<or> y \<le> x"
    by (auto simp: less_eq_date_def)
qed

end

text \<open>
  \<^verbatim>\<open>dateToWY\<close>: \<^verbatim>\<open>d.getMonth() >= 9 ? d.getFullYear() + 1 : d.getFullYear()\<close>.
  \<^verbatim>\<open>getMonth\<close> counts from 0, so the test is ``October or later''.
\<close>

definition dateToWY :: "date \<Rightarrow> int" where
  "dateToWY d = (if month d \<ge> 10 then year d + 1 else year d)"

text \<open>
  The number of days from a fixed origin to a calendar date (proleptic Gregorian
  calendar).
\<close>

definition isLeapYear :: "int \<Rightarrow> bool" where
  "isLeapYear y \<longleftrightarrow> y mod 4 = 0 \<and> (y mod 100 \<noteq> 0 \<or> y mod 400 = 0)"

definition daysBeforeYear :: "int \<Rightarrow> int" where
  "daysBeforeYear y = 365 * (y - 1) + (y - 1) div 4 - (y - 1) div 100 + (y - 1) div 400"

definition monthLengths :: "int \<Rightarrow> int list" where
  "monthLengths y = [31, if isLeapYear y then 29 else 28, 31, 30, 31, 30, 31, 31, 30, 31, 30, 31]"

definition dayNumber :: "date \<Rightarrow> int" where
  "dayNumber d = daysBeforeYear (year d) + sum_list (take (month d - 1) (monthLengths (year d))) + int (day d)"

text \<open>
  The time zone of the runtime: the offset of local time from UTC, in milliseconds,
  in force at local midnight of a date (36000000 for UTC+10). Up to a constant,
  \<^verbatim>\<open>getTime()\<close> of the local midnight of a date is \<open>localMidnight\<close>.
\<close>

type_synonym zone = "date \<Rightarrow> int"

definition localMidnight :: "zone \<Rightarrow> date \<Rightarrow> int" where
  "localMidnight tz d = dayNumber d * 86400000 - tz d"

text \<open>
  \<^verbatim>\<open>dateToDOWY\<close>: \<^verbatim>\<open>Math.floor((d.getTime() - wyStart.getTime()) / 86400000) + 1\<close> with
  \<^verbatim>\<open>d = new Date(dateStr + 'T00:00:00')\<close> and \<^verbatim>\<open>wyStart = new Date(wy, 9, 1)\<close>, both local
  midnights. The difference is a whole number of milliseconds far below \<open>2^53\<close>, for
  which the floor of the double quotient is the floor of the exact quotient: integer
  division, which rounds down.
\<close>

definition dateToDOWY :: "zone \<Rightarrow> date \<Rightarrow> int" where
  "dateToDOWY tz d =
     (let wy = (if month d \<ge> 10 then year d else year d - 1);
          wyStart = Date wy 10 1
      in (localMidnight tz d - localMidnight tz wyStart) div 86400000 + 1)"

subsection \<open>Double-precision arithmetic\<close>

text \<open>
  Rounding to the nearest double, ties to even. A positive real is scaled by powers of
  two into \<open>[2^52, 2^53)\<close>, where the doubles are the integers, rounded there to the
  nearest integer (to the even one when it lies half-way), and scaled back. The
  exponent is not bounded: a result that would be subnormal keeps 53 bits, and a result
  beyond the largest double does not become \<^verbatim>\<open>Infinity\<close>.
\<close>

definition roundHalfEven :: "real \<Rightarrow> int" where
  "roundHalfEven x =
     (let f = \<lfloor>x\<rfloor>; r = x - of_int f
      in if r < 1 / 2 then f else if 1 / 2 < r then f + 1 else if even f then f else f + 1)"

function scaleUp :: "real \<Rightarrow> real \<Rightarrow> real \<times> real" where
  "scaleUp m s = (if 0 < m \<and> m < 4503599627370496 then scaleUp (2 * m) (s / 2) else (m, s))"
  by pat_completeness auto
termination
proof (relation "measure (\<lambda>(m, s). nat \<lceil>4503599627370496 / m\<rceil>)")
  show "wf (measure (\<lambda>(m, s). nat \<lceil>4503599627370496 / m\<rceil>))" by simp
next
  fix m s :: real
  assume a: "0 < m \<and> m < 4503599627370496"
  define y where "y = 4503599627370496 / m"
  have y: "1 < y" using a by (simp add: y_def)
  have "\<lceil>y / 2\<rceil> < \<lceil>y\<rceil>"
  proof -
    have two: "2 \<le> \<lceil>y\<rceil>" using y by linarith
    have "y / 2 \<le> of_int \<lceil>y\<rceil> / 2" by (simp add: le_of_int_ceiling)
    then have "\<lceil>y / 2\<rceil> \<le> \<lceil>of_int \<lceil>y\<rceil> / (2::real)\<rceil>" by (rule ceiling_mono)
    also have "\<dots> < \<lceil>y\<rceil>" using two by linarith
    finally show ?thesis .
  qed
  moreover have "0 < \<lceil>y\<rceil>" using y by linarith
  moreover have "4503599627370496 / (2 * m) = y / 2" by (simp add: y_def)
  ultimately show "((2 * m, s / 2), (m, s)) \<in> measure (\<lambda>(m, s). nat \<lceil>4503599627370496 / m\<rceil>)"
    by (simp add: y_def)
qed

function scaleDown :: "real \<Rightarrow> real \<Rightarrow> real \<times> real" where
  "scaleDown m s = (if 9007199254740992 \<le> m then scaleDown (m / 2) (s * 2) else (m, s))"
  by pat_completeness auto
termination
proof (relation "measure (\<lambda>(m, s). nat \<lfloor>m\<rfloor>)")
  show "wf (measure (\<lambda>(m, s). nat \<lfloor>m\<rfloor>))" by simp
next
  fix m s :: real
  assume a: "9007199254740992 \<le> m"
  have "\<lfloor>m / 2\<rfloor> < \<lfloor>m\<rfloor>" using a by linarith
  moreover have "0 < \<lfloor>m\<rfloor>" using a by linarith
  ultimately show "((m / 2, s * 2), (m, s)) \<in> measure (\<lambda>(m, s). nat \<lfloor>m\<rfloor>)"
    by simp
qed

declare scaleUp.simps [simp del] scaleDown.simps [simp del]

definition fl :: "real \<Rightarrow> real" where
  "fl x =
     (if x = 0 then 0
      else case scaleUp \<bar>x\<bar> 1 of (m1, s1) \<Rightarrow>
           case scaleDown m1 s1 of (m, s) \<Rightarrow>
             sgn x * (real_of_int (roundHalfEven m) * s))"

text \<open>The operators \<^verbatim>\<open>+\<close>, \<^verbatim>\<open>-\<close>, \<^verbatim>\<open>*\<close> and \<^verbatim>\<open>/\<close> on numbers.\<close>

definition fadd :: "real \<Rightarrow> real \<Rightarrow> real" where
  "fadd a b = fl (a + b)"

definition fsub :: "real \<Rightarrow> real \<Rightarrow> real" where
  "fsub a b = fl (a - b)"

definition fmul :: "real \<Rightarrow> real \<Rightarrow> real" where
  "fmul a b = fl (a * b)"

definition fdiv :: "real \<Rightarrow> real \<Rightarrow> real" where
  "fdiv a b = fl (a / b)"

subsection \<open>Records of the data model\<close>

text \<open>\<^verbatim>\<open>interface PORDay { date: string; swe: number | null }\<close>\<close>

record PORDay =
  date :: date
  swe :: "real option"

text \<open>
  \<^verbatim>\<open>interface SnotelStation\<close> and \<^verbatim>\<open>interface HydroPoint\<close>. Their fields carry a
  prefix, since a field name is a constant of the theory.
\<close>

record SnotelStation =
  st_id :: string
  st_name :: string
  st_state :: string
  st_elevation :: real
  st_lat :: real
  st_lon :: real
  st_swe :: "real option"
  st_pctMedian :: "real option"

record HydroPoint =
  h_date :: date
  h_dowy :: int
  h_swe :: "real option"
  h_median :: "real option"
  h_pctMedian :: "real option"

text \<open>An element of \<^verbatim>\<open>StationAnalytics.waterYears\<close>.\<close>

record WaterYearSummary =
  wy :: int
  peakSWE :: real
  peakDate :: date
  onsetDate :: "date option"
  meltOutDate :: "date option"
  seasonDays :: int

subsection \<open>Grouping by water year\<close>

text \<open>
  \<^verbatim>\<open>byWY: Record<number, PORDay[]>\<close> as an association list in insertion order.
  \<^verbatim>\<open>if (!byWY[wy]) byWY[wy] = []; byWY[wy].push(d)\<close> is \<open>pushWY\<close>.
\<close>

fun pushWY :: "int \<Rightarrow> PORDay \<Rightarrow> (int \<times> PORDay list) list \<Rightarrow> (int \<times> PORDay list) list" where
  "pushWY k d [] = [(k, [d])]"
| "pushWY k d ((k', ds) # m) =
     (if k = k' then (k', ds @ [d]) # m else (k', ds) # pushWY k d m)"

definition groupStep :: "(int \<times> PORDay list) list \<Rightarrow> PORDay \<Rightarrow> (int \<times> PORDay list) list" where
  "groupStep m d = (case swe d of None \<Rightarrow> m | Some v \<Rightarrow> pushWY (dateToWY (date d)) d m)"

definition groupByWY :: "PORDay list \<Rightarrow> (int \<times> PORDay list) list" where
  "groupByWY porData = foldl groupStep [] porData"

text \<open>
  \<^verbatim>\<open>Object.entries(byWY)\<close>: the keys are non-negative integers, which JavaScript
  enumerates in ascending numeric order.
\<close>

definition entriesWY :: "(int \<times> PORDay list) list \<Rightarrow> (int \<times> PORDay list) list" where
  "entriesWY m = sort_key fst m"

subsection \<open>Per water-year summaries\<close>

text \<open>
  The loop \<^verbatim>\<open>for (const d of sorted) if (d.swe !== null && d.swe > peakSWE) { ... }\<close>
  on the pair \<^verbatim>\<open>(peakSWE, peakDate)\<close>.
\<close>

fun peakLoop :: "PORDay list \<Rightarrow> real \<times> date \<Rightarrow> real \<times> date" where
  "peakLoop [] acc = acc"
| "peakLoop (d # ds) (pk, pd) =
     (case swe d of
        None \<Rightarrow> peakLoop ds (pk, pd)
      | Some v \<Rightarrow> if v > pk then peakLoop ds (v, date d) else peakLoop ds (pk, pd))"

text \<open>The predicate \<^verbatim>\<open>d => d.swe !== null && d.swe > 1\<close>.\<close>

definition aboveOne :: "PORDay \<Rightarrow> bool" where
  "aboveOne d = (case swe d of None \<Rightarrow> False | Some v \<Rightarrow> v > 1)"

text \<open>
  \<^verbatim>\<open>Math.round((new Date(meltOutDate).getTime() - new Date(onsetDate).getTime()) / 86400000)\<close>:
  both strings are date-only and parse as UTC midnights, so the quotient is the whole
  number of days between them.
\<close>

definition seasonDaysOf :: "date option \<Rightarrow> date option \<Rightarrow> int" where
  "seasonDaysOf onset melt =
     (case (onset, melt) of
        (Some a, Some b) \<Rightarrow> dayNumber b - dayNumber a
      | _ \<Rightarrow> 0)"

text \<open>
  The callback of \<^verbatim>\<open>.map(([wyStr, days]) => ...)\<close>. \<^verbatim>\<open>sorted[0].date\<close> on an empty
  array throws a TypeError: that is \<open>None\<close>.
\<close>

definition summarize :: "int \<Rightarrow> PORDay list \<Rightarrow> WaterYearSummary option" where
  "summarize k days =
     (let sorted = sort_key date days in
      case sorted of
        [] \<Rightarrow> None
      | d0 # rest \<Rightarrow>
          let (pk, pd) = peakLoop sorted (0, date d0);
              onset = map_option date (find aboveOne sorted);
              afterPeak = filter (\<lambda>d. date d \<ge> pd) sorted;
              melt = map_option date (find aboveOne (rev afterPeak))
          in Some \<lparr> wy = k, peakSWE = pk, peakDate = pd, onsetDate = onset,
                    meltOutDate = melt, seasonDays = seasonDaysOf onset melt \<rparr>)"

text \<open>
  \<^verbatim>\<open>Object.entries(byWY).filter(([_, days]) => days.length > 60).map(...).sort((a, b) => a.wy - b.wy)\<close>.
  An exception in the callback would abort the computation; none is raised, since
  the filter keeps non-empty groups only (lemma \<open>summarize_Some\<close>).
\<close>

definition waterYearsOf :: "(int \<times> PORDay list) list \<Rightarrow> WaterYearSummary list" where
  "waterYearsOf byWY =
     sort_key wy
       (List.map_filter (\<lambda>(k, days). summarize k days)
          (filter (\<lambda>(k, days). length days > 60) (entriesWY byWY)))"

definition waterYears :: "PORDay list \<Rightarrow> WaterYearSummary list" where
  "waterYears porData = waterYearsOf (groupByWY porData)"

text \<open>
  The valid observations of water year \<open>y\<close> in a series, in the order of the series:
  the reference against which the grouping is measured.
\<close>

definition wyDays :: "PORDay list \<Rightarrow> int \<Rightarrow> PORDay list" where
  "wyDays porData y = filter (\<lambda>d. swe d \<noteq> None \<and> dateToWY (date d) = y) porData"

subsection \<open>Linear regression\<close>

record Regression =
  slope :: real
  intercept :: real
  r2 :: real

text \<open>
  \<^verbatim>\<open>linearRegression(xs, ys)\<close>. Each \<^verbatim>\<open>reduce\<close> is a left fold from 0; the reductions
  that read \<^verbatim>\<open>ys[i]\<close> or \<^verbatim>\<open>xs[i]\<close> run over the pairs of the two arrays. \<^verbatim>\<open>v ** 2\<close>
  is the rounded product of \<open>v\<close> with itself. The callers pass arrays of equal length
  (with different lengths JavaScript reads \<^verbatim>\<open>undefined\<close> and the sums are \<^verbatim>\<open>NaN\<close>,
  which the model does not represent).
\<close>

definition linearRegression :: "real list \<Rightarrow> real list \<Rightarrow> Regression" where
  "linearRegression xs ys =
     (let n = length xs in
      if n < 2 then \<lparr> slope = 0, intercept = 0, r2 = 0 \<rparr>
      else
        let sumX = foldl (\<lambda>a b. fadd a b) 0 xs;
            sumY = foldl (\<lambda>a b. fadd a b) 0 ys;
            sumXX = foldl (\<lambda>a x. fadd a (fmul x x)) 0 xs;
            sumXY = foldl (\<lambda>a (x, y). fadd a (fmul x y)) 0 (zip xs ys);
            denom = fsub (fmul (real n) sumXX) (fmul sumX sumX)
        in if denom = 0 then \<lparr> slope = 0, intercept = fdiv sumY (real n), r2 = 0 \<rparr>
           else
             let sl = fdiv (fsub (fmul (real n) sumXY) (fmul sumX sumY)) denom;
                 ic = fdiv (fsub sumY (fmul sl sumX)) (real n);
                 meanY = fdiv sumY (real n);
                 ssRes = foldl (\<lambda>a (x, y). fadd a (let r = fsub y (fadd (fmul sl x) ic) in fmul r r))
                           0 (zip xs ys);
                 ssTot = foldl (\<lambda>a y. fadd a (let r = fsub y meanY in fmul r r)) 0 ys;
                 rr = (if ssTot > 0 then fsub 1 (fdiv ssRes ssTot) else 0)
             in \<lparr> slope = sl, intercept = ic, r2 = rr \<rparr>)"

subsection \<open>The wall clock\<close>

text \<open>
  One reading of \<^verbatim>\<open>new Date()\<close>: the calendar date in local time (\<^verbatim>\<open>getFullYear\<close>,
  \<^verbatim>\<open>getMonth\<close>, \<^verbatim>\<open>getDate\<close>) and the calendar date in UTC (\<^verbatim>\<open>toISOString\<close>).
\<close>

record Clock =
  localDate :: date
  utcDate :: date

record WYDates =
  wd_start :: date
  wd_end :: date
  wyYear :: int

definition waterYearDates :: "Clock \<Rightarrow> WYDates" where
  "waterYearDates clock =
     (let now = localDate clock;
          y = (if month now \<ge> 10 then year now else year now - 1)
      in \<lparr> wd_start = Date y 10 1, wd_end = now, wyYear = y \<rparr>)"

subsection \<open>Season timing\<close>

text \<open>
  \<^verbatim>\<open>Math.round\<close> gives the integer nearest to its argument, the larger one when two
  are equally near: \<open>\<lfloor>x + 1/2\<rfloor>\<close>, computed exactly.
\<close>

definition jsRound :: "real \<Rightarrow> int" where
  "jsRound x = \<lfloor>x + 1 / 2\<rfloor>"

text \<open>
  \<^verbatim>\<open>onsetData\<close>, \<^verbatim>\<open>meltData\<close> and \<^verbatim>\<open>seasonsWithLength\<close> are lists of pairs (water year,
  metric). On each the code computes
  \<^verbatim>\<open>xs.length > 5 ? linearRegression(...) : { slope: 0, r2: 0 }\<close> and
  \<^verbatim>\<open>xs.length > 0 ? Math.round(sum / xs.length) : 0\<close>.
\<close>

definition timingSlope :: "(int \<times> int) list \<Rightarrow> real" where
  "timingSlope ps =
     (if length ps > 5
      then slope (linearRegression (map (\<lambda>p. real_of_int (fst p)) ps) (map (\<lambda>p. real_of_int (snd p)) ps))
      else 0)"

definition timingAvg :: "(int \<times> int) list \<Rightarrow> int" where
  "timingAvg ps =
     (if length ps > 0
      then jsRound (fdiv (foldl (\<lambda>a p. fadd a (real_of_int (snd p))) 0 ps) (real (length ps)))
      else 0)"

definition onsetData :: "zone \<Rightarrow> WaterYearSummary list \<Rightarrow> (int \<times> int) list" where
  "onsetData tz ws = List.map_filter (\<lambda>w. map_option (\<lambda>d. (wy w, dateToDOWY tz d)) (onsetDate w)) ws"

definition meltData :: "zone \<Rightarrow> WaterYearSummary list \<Rightarrow> (int \<times> int) list" where
  "meltData tz ws = List.map_filter (\<lambda>w. map_option (\<lambda>d. (wy w, dateToDOWY tz d)) (meltOutDate w)) ws"

definition seasonsWithLength :: "WaterYearSummary list \<Rightarrow> (int \<times> int) list" where
  "seasonsWithLength ws = map (\<lambda>w. (wy w, seasonDays w)) (filter (\<lambda>w. seasonDays w > 0) ws)"

subsection \<open>Current context\<close>

text \<open>
  The pool \<^verbatim>\<open>historicalAtDOWY\<close>: for every group of \<^verbatim>\<open>byWY\<close> the first day within
  three days of today's day of water year, if there is one, sorted ascending.
\<close>

definition nearToday :: "zone \<Rightarrow> int \<Rightarrow> PORDay \<Rightarrow> bool" where
  "nearToday tz todayDOWY d \<longleftrightarrow> \<bar>dateToDOWY tz (date d) - todayDOWY\<bar> \<le> 3"

definition historicalAtDOWY :: "zone \<Rightarrow> int \<Rightarrow> (int \<times> PORDay list) list \<Rightarrow> real list" where
  "historicalAtDOWY tz todayDOWY byWY =
     sort (concat (map (\<lambda>(k, days).
             case find (nearToday tz todayDOWY) days of
               None \<Rightarrow> []
             | Some d \<Rightarrow> (case swe d of None \<Rightarrow> [] | Some v \<Rightarrow> [v]))
           (entriesWY byWY)))"

text \<open>\<^verbatim>\<open>station.swe ?? 0\<close>\<close>

definition currentSWE :: "SnotelStation \<Rightarrow> real" where
  "currentSWE station = (case st_swe station of None \<Rightarrow> 0 | Some v \<Rightarrow> v)"

definition rankOf :: "real list \<Rightarrow> real \<Rightarrow> nat" where
  "rankOf pool cur = length (filter (\<lambda>v. v < cur) pool) + 1"

subsection \<open>Peak projection\<close>

text \<open>
  The block that sets \<^verbatim>\<open>projectedPeak\<close>. \<^verbatim>\<open>latestMedian && latestSWE\<close> is false for
  \<^verbatim>\<open>null\<close> and for 0. \<^verbatim>\<open>Math.max()\<close> of no argument is \<^verbatim>\<open>-Infinity\<close>, which is not
  greater than \<^verbatim>\<open>latestMedian\<close>. \<^verbatim>\<open>ratio * peakMedian * 10\<close> multiplies from the left.
\<close>

definition projectPeak :: "HydroPoint list \<Rightarrow> real option" where
  "projectPeak currentWYHydro =
     (if length currentWYHydro > 5 then
        let latestHydro = last currentWYHydro in
        case (h_median latestHydro, h_swe latestHydro) of
          (Some latestMedian, Some latestSWE) \<Rightarrow>
            if latestMedian \<noteq> 0 \<and> latestSWE \<noteq> 0 \<and> latestMedian > 0 then
              let ratio = fdiv latestSWE latestMedian;
                  medians = List.map_filter h_median currentWYHydro
              in if medians = [] then None
                 else
                   let peakMedian = Max (set medians)
                   in if peakMedian > latestMedian
                      then Some (fdiv (real_of_int (jsRound (fmul (fmul ratio peakMedian) 10))) 10)
                      else None
            else None
        | _ \<Rightarrow> None
      else None)"

subsection \<open>Monthly climatology\<close>

definition MONTHS :: "string list" where
  "MONTHS = [''Jan'', ''Feb'', ''Mar'', ''Apr'', ''May'', ''Jun'',
             ''Jul'', ''Aug'', ''Sep'', ''Oct'', ''Nov'', ''Dec'']"

record MonthClim =
  c_month :: string
  c_avg :: real
  c_min :: real
  c_max :: real

text \<open>\<^verbatim>\<open>monthlyBuckets[mo]\<close>, with \<open>mo\<close> the value of \<^verbatim>\<open>getMonth()\<close> (January is 0).\<close>

definition monthlyBucket :: "PORDay list \<Rightarrow> nat \<Rightarrow> real list" where
  "monthlyBucket porData mo =
     List.map_filter (\<lambda>d. if month (date d) = mo + 1 then swe d else None) porData"

text \<open>\<^verbatim>\<open>Math.round(x * 10) / 10\<close>\<close>

definition round1 :: "real \<Rightarrow> real" where
  "round1 x = fdiv (real_of_int (jsRound (fmul x 10))) 10"

definition climOf :: "PORDay list \<Rightarrow> nat \<Rightarrow> MonthClim" where
  "climOf porData mo =
     (let vals = monthlyBucket porData mo;
          av = (if length vals > 0 then fdiv (foldl (\<lambda>a b. fadd a b) 0 vals) (real (length vals)) else 0);
          mn = (if length vals > 0 then Min (set vals) else 0);
          mx = (if length vals > 0 then Max (set vals) else 0)
      in \<lparr> c_month = MONTHS ! mo, c_avg = round1 av, c_min = round1 mn, c_max = round1 mx \<rparr>)"

definition climMonths :: "nat list" where
  "climMonths = [9, 10, 11, 0, 1, 2, 3, 4, 5]"

definition monthlyClimOf :: "PORDay list \<Rightarrow> MonthClim list" where
  "monthlyClimOf porData = map (climOf porData) climMonths"

subsection \<open>Nearby stations and region\<close>

record Nearby =
  nb_name :: string
  nb_pctMedian :: "real option"

text \<open>
  The comparator \<^verbatim>\<open>da - db\<close> of the sort has the sign of the exact difference (the
  rounded difference of two different doubles is not 0), so the sort is the stable
  sort by the distance.
\<close>

definition stationDist :: "SnotelStation \<Rightarrow> SnotelStation \<Rightarrow> real" where
  "stationDist station s =
     fadd \<bar>fsub (st_lat s) (st_lat station)\<bar> \<bar>fsub (st_lon s) (st_lon station)\<bar>"

definition nearbyOf :: "SnotelStation \<Rightarrow> SnotelStation list \<Rightarrow> Nearby list" where
  "nearbyOf station allStations =
     map (\<lambda>s. \<lparr> nb_name = st_name s, nb_pctMedian = st_pctMedian s \<rparr>)
       (take 3
          (sort_key (stationDist station)
             (filter (\<lambda>s. st_id s \<noteq> st_id station
                           \<and> \<bar>fsub (st_lat s) (st_lat station)\<bar> < 1
                           \<and> \<bar>fsub (st_lon s) (st_lon station)\<bar> < 1
                           \<and> st_pctMedian s \<noteq> None)
                allStations)))"

definition REGIONS :: "(string \<times> string list) list" where
  "REGIONS =
     [(''Sierra Nevada'', [''CA'', ''NV'']),
      (''Rockies'', [''CO'', ''WY'', ''MT'', ''ID'', ''UT'']),
      (''Cascades'', [''WA'', ''OR'']),
      (''Northeast'', [''VT'', ''NH'', ''ME'', ''NY'']),
      (''Southwest'', [''AZ'', ''NM''])]"

text \<open>
  The loop over \<^verbatim>\<open>Object.entries(REGIONS)\<close> with its \<^verbatim>\<open>break\<close>: the first region
  whose states include the station's.
\<close>

definition regionOf :: "SnotelStation \<Rightarrow> SnotelStation list \<Rightarrow> string \<times> SnotelStation list" where
  "regionOf station allStations =
     (case find (\<lambda>(nm, states). st_state station \<in> set states) REGIONS of
        None \<Rightarrow> (''Region'', [])
      | Some (nm, states) \<Rightarrow>
          (nm, filter (\<lambda>s. st_state s \<in> set states \<and> st_pctMedian s \<noteq> None) allStations))"

text \<open>
  \<^verbatim>\<open>regionStations.reduce((a, s) => a + s.pctMedian!, 0)\<close>; a \<^verbatim>\<open>null\<close> operand of \<^verbatim>\<open>+\<close>
  counts as 0 (none reaches the sum, the filter has removed them).
\<close>

definition regionAvgPctOf :: "SnotelStation list \<Rightarrow> int" where
  "regionAvgPctOf regionStations =
     (if length regionStations > 0
      then jsRound (fdiv (foldl (\<lambda>a s. fadd a (case st_pctMedian s of None \<Rightarrow> 0 | Some p \<Rightarrow> p))
                                 0 regionStations)
                          (real (length regionStations)))
      else 0)"

subsection \<open>computeAnalytics\<close>

record StationAnalytics =
  sa_waterYears :: "WaterYearSummary list"
  peakTrendSlope :: real
  peakTrendPct :: real
  peakTrendSignificant :: bool
  avgOnsetDOWY :: int
  currentOnsetDOWY :: "int option"
  onsetTrendDays :: real
  avgMeltOutDOWY :: int
  meltOutTrendDays :: real
  avgSeasonLength :: int
  seasonLengthChange :: real
  currentRank :: nat
  totalYears :: nat
  belowMedianCount10yr :: nat
  projectedPeak :: "real option"
  monthlyClim :: "MonthClim list"
  nearbyComparison :: "Nearby list"
  regionName :: string
  regionAvgPct :: int

text \<open>
  \<^verbatim>\<open>computeAnalytics(porData, station, allStations, currentWYHydro)\<close>, with the time zone
  of the runtime and the reading of the wall clock as further arguments: the function
  calls \<^verbatim>\<open>waterYearDates()\<close> and \<^verbatim>\<open>new Date().toISOString().slice(0, 10)\<close>, and
  \<^verbatim>\<open>dateToDOWY\<close> works in local time.
\<close>

definition computeAnalytics ::
  "zone \<Rightarrow> Clock \<Rightarrow> PORDay list \<Rightarrow> SnotelStation \<Rightarrow> SnotelStation list \<Rightarrow> HydroPoint list
     \<Rightarrow> StationAnalytics" where
  "computeAnalytics tz clock porData station allStations currentWYHydro =
     (let byWY = groupByWY porData;
          ws = waterYearsOf byWY;
          peakXs = map (\<lambda>w. real_of_int (wy w)) ws;
          peakYs = map peakSWE ws;
          peakReg = linearRegression peakXs peakYs;
          span = (if length ws > 1 then wy (last ws) - wy (hd ws) else 1);
          avgPeak = (if length peakYs > 0
                     then fdiv (foldl (\<lambda>a b. fadd a b) 0 peakYs) (real (length peakYs)) else 1);
          currentWY = find (\<lambda>w. wy w = wyYear (waterYearDates clock)) ws;
          todayDOWY = dateToDOWY tz (utcDate clock);
          pool = historicalAtDOWY tz todayDOWY byWY;
          recent10 = drop (length ws - 10) ws;
          medianPeak = (if length peakYs > 0 then sort peakYs ! (length peakYs div 2) else 0);
          region = regionOf station allStations
      in \<lparr> sa_waterYears = ws,
           peakTrendSlope = fmul (slope peakReg) 10,
           peakTrendPct =
             (if avgPeak > 0
              then fmul (fdiv (fmul (slope peakReg) (real_of_int span)) avgPeak) 100 else 0),
           peakTrendSignificant = (r2 peakReg > 0.15 \<and> length ws > 10),
           avgOnsetDOWY = timingAvg (onsetData tz ws),
           currentOnsetDOWY =
             (case currentWY of None \<Rightarrow> None | Some w \<Rightarrow> map_option (dateToDOWY tz) (onsetDate w)),
           onsetTrendDays = fmul (timingSlope (onsetData tz ws)) 10,
           avgMeltOutDOWY = timingAvg (meltData tz ws),
           meltOutTrendDays = fmul (timingSlope (meltData tz ws)) 10,
           avgSeasonLength = timingAvg (seasonsWithLength ws),
           seasonLengthChange = fmul (timingSlope (seasonsWithLength ws)) (real_of_int span),
           currentRank = rankOf pool (currentSWE station),
           totalYears = length pool,
           belowMedianCount10yr = length (filter (\<lambda>w. peakSWE w < medianPeak) recent10),
           projectedPeak = projectPeak currentWYHydro,
           monthlyClim = monthlyClimOf porData,
           nearbyComparison = nearbyOf station allStations,
           regionName = fst region,
           regionAvgPct = regionAvgPctOf (snd region) \<rparr>)"

subsection \<open>Reference notions and example inputs\<close>

text \<open>The observed values of water year \<open>y\<close>.\<close>

definition wyValues :: "PORDay list \<Rightarrow> int \<Rightarrow> real list" where
  "wyValues porData y = List.map_filter swe (wyDays porData y)"

text \<open>
  The value that water year \<open>y\<close> contributes to the pool of a day \<open>today\<close>: the value of
  the first valid observation of \<open>y\<close>, in the order of the series, whose day of water
  year is within three days of today's; none when \<open>y\<close> has no such observation.
\<close>

definition pooledValue :: "zone \<Rightarrow> date \<Rightarrow> PORDay list \<Rightarrow> int \<Rightarrow> real option" where
  "pooledValue tz today porData y =
     (case filter (\<lambda>d. \<bar>dateToDOWY tz (date d) - dateToDOWY tz today\<bar> \<le> 3) (wyDays porData y) of
        [] \<Rightarrow> None
      | d # rest \<Rightarrow> swe d)"

text \<open>
  A series with 61 valid observations in water year 2021 (November 2020 listed
  before October 2020, and one missing value in December). The maximum 12 is
  observed on November 10th and again on November 21st.
\<close>

definition por61 :: "PORDay list" where
  "por61 =
     map (\<lambda>i. \<lparr> date = Date 2020 11 (Suc i),
                swe = Some (if i < 10 then 3 + real i else if i = 20 then 12 else 5) \<rparr>) [0..<30]
     @ [\<lparr> date = Date 2020 12 1, swe = None \<rparr>]
     @ map (\<lambda>i. \<lparr> date = Date 2020 10 (Suc i), swe = Some (real i / 10) \<rparr>) [0..<31]"

text \<open>The same series cut to 60 and to 59 valid observations of water year 2021.\<close>

definition por60 :: "PORDay list" where
  "por60 = take 61 por61"

definition por59 :: "PORDay list" where
  "por59 = take 60 por61"

text \<open>61 observations of water year 2021, every one of them negative.\<close>

definition porNeg :: "PORDay list" where
  "porNeg =
     map (\<lambda>i. \<lparr> date = Date 2020 10 (Suc i), swe = Some (- 1) \<rparr>) [0..<31]
     @ map (\<lambda>i. \<lparr> date = Date 2020 11 (Suc i), swe = Some (- 1) \<rparr>) [0..<30]"

text \<open>
  Three water years (2019, 2020, 2021) of 61 valid observations each, with peaks 10,
  50 and 90.
\<close>

definition por3 :: "PORDay list" where
  "por3 =
     concat (map (\<lambda>(y, pk).
                map (\<lambda>i. \<lparr> date = Date y 10 (Suc i), swe = Some pk \<rparr>) [0..<31]
                @ map (\<lambda>i. \<lparr> date = Date y 11 (Suc i), swe = Some 1 \<rparr>) [0..<30])
             [(2018, 10), (2019, 50), (2020, 90)])"

text \<open>Two readings of the clock, on different days of the water year.\<close>

definition clockJan :: Clock where
  "clockJan = \<lparr> localDate = Date 2021 1 10, utcDate = Date 2021 1 10 \<rparr>"


text \<open>A station with a current value, and the same station without one.\<close>

definition stationA :: SnotelStation where
  "stationA = \<lparr> st_id = ''515'', st_name = ''Harts Pass'', st_state = ''WA'', st_elevation = 6490,
                 st_lat = 48.72, st_lon = - 120.66, st_swe = Some 30, st_pctMedian = Some 95 \<rparr>"

definition stationMissing :: SnotelStation where
  "stationMissing = stationA \<lparr> st_swe := None \<rparr>"

text \<open>
  A short series: three Januaries within three days of January 10th (day 102 of the
  water year) and one day in June.
\<close>

definition porJan :: "PORDay list" where
  "porJan =
     [\<lparr> date = Date 2019 1 9, swe = Some 4.25 \<rparr>,
      \<lparr> date = Date 2020 1 12, swe = Some 9 \<rparr>,
      \<lparr> date = Date 2018 1 10, swe = Some 2 \<rparr>,
      \<lparr> date = Date 2017 6 1, swe = Some 1 \<rparr>]"

text \<open>
  Current-season series of six points. In \<open>hydroRounded\<close> the latest pair is (1, 3) and
  the largest median is 10; \<open>hydroLastNull\<close> differs in its last value only, which is
  missing; in \<open>hydroHalf\<close> the latest pair is (4, 8).
\<close>

definition hydroPoint :: "nat \<Rightarrow> real option \<Rightarrow> real option \<Rightarrow> HydroPoint" where
  "hydroPoint i v m =
     \<lparr> h_date = Date 2020 10 i, h_dowy = int i, h_swe = v, h_median = m, h_pctMedian = None \<rparr>"

definition hydroRounded :: "HydroPoint list" where
  "hydroRounded =
     [hydroPoint 1 (Some 2) (Some 10), hydroPoint 2 (Some 2) (Some 8), hydroPoint 3 (Some 2) (Some 6),
      hydroPoint 4 (Some 1) (Some 5), hydroPoint 5 (Some 1) (Some 4), hydroPoint 6 (Some 1) (Some 3)]"

definition hydroLastNull :: "HydroPoint list" where
  "hydroLastNull =
     [hydroPoint 1 (Some 2) (Some 10), hydroPoint 2 (Some 2) (Some 8), hydroPoint 3 (Some 2) (Some 6),
      hydroPoint 4 (Some 1) (Some 5), hydroPoint 5 (Some 1) (Some 4), hydroPoint 6 None (Some 3)]"

definition hydroHalf :: "HydroPoint list" where
  "hydroHalf =
     [hydroPoint 1 (Some 2) (Some 10), hydroPoint 2 (Some 2) (Some 8), hydroPoint 3 (Some 2) (Some 6),
      hydroPoint 4 (Some 1) (Some 5), hydroPoint 5 (Some 1) (Some 4), hydroPoint 6 (Some 4) (Some 8)]"

text \<open>
  Two time zones: UTC, and a zone ten hours ahead of UTC that is eleven hours ahead,
  on daylight-saving time, from November to March.
\<close>

definition utcZone :: zone where
  "utcZone d = 0"

definition southernZone :: zone where
  "southernZone d = (if month d \<ge> 11 \<or> month d \<le> 3 then 39600000 else 36000000)"

text \<open>
  A series for the pool of January 10th (day 102 of the water year in UTC). Water
  year 2019 has a first row far from that day and then two rows within three days of
  it; water years 2018 and 2020 have one row within three days; the row of water year
  2017 falls on the 10th of another month; the row of water year 2016 is on the day
  itself and has no value.
\<close>

definition porPool :: "PORDay list" where
  "porPool =
     [\<lparr> date = Date 2018 12 1, swe = Some 1 \<rparr>,
      \<lparr> date = Date 2019 1 9, swe = Some 4.25 \<rparr>,
      \<lparr> date = Date 2019 1 11, swe = Some 7.5 \<rparr>,
      \<lparr> date = Date 2020 1 12, swe = Some 9 \<rparr>,
      \<lparr> date = Date 2018 1 10, swe = Some 2 \<rparr>,
      \<lparr> date = Date 2017 3 10, swe = Some 50 \<rparr>,
      \<lparr> date = Date 2016 1 10, swe = None \<rparr>]"

text \<open>
  Values in tenths, as the doubles nearest to them: two January observations 0.1 and
  4.6, and a current-season series whose latest pair is (0.3, 0.2) with the largest
  median 0.3.
\<close>

definition porTenths :: "PORDay list" where
  "porTenths =
     [\<lparr> date = Date 2020 1 5, swe = Some (fl (1 / 10)) \<rparr>,
      \<lparr> date = Date 2020 1 6, swe = Some (fl (46 / 10)) \<rparr>]"

definition hydroTenths :: "HydroPoint list" where
  "hydroTenths =
     [hydroPoint 1 (Some (fl (1 / 10))) (Some (fl (3 / 10))),
      hydroPoint 2 (Some (fl (1 / 10))) (Some (fl (3 / 10))),
      hydroPoint 3 (Some (fl (2 / 10))) (Some (fl (3 / 10))),
      hydroPoint 4 (Some (fl (2 / 10))) (Some (fl (2 / 10))),
      hydroPoint 5 (Some (fl (3 / 10))) (Some (fl (2 / 10))),
      hydroPoint 6 (Some (fl (3 / 10))) (Some (fl (2 / 10)))]"

text \<open>
  A zone eight hours behind UTC all year, and a clock reading there in the evening of
  January 9th, when the UTC date is already the 10th.
\<close>

definition westZone :: zone where
  "westZone d = - 28800000"


section \<open>Properties\<close>

subsection \<open>Grouping by water year\<close>

lemma pushWY_keys: "fst ` set (pushWY k d m) = insert k (fst ` set m)"
  by (induction m) force+

lemma pushWY_distinct: "distinct (map fst m) \<Longrightarrow> distinct (map fst (pushWY k d m))"
proof (induction m)
  case Nil
  then show ?case by simp
next
  case (Cons a m)
  obtain k' ds where a: "a = (k', ds)" by (cases a)
  have "k' \<notin> fst ` set (pushWY k d m)" if "k \<noteq> k'"
    using Cons.prems that by (simp add: pushWY_keys a)
  with Cons show ?case by (auto simp: a)
qed

lemma pushWY_map_of:
  "map_of (pushWY k d m) y =
     (if y = k then Some ((case map_of m k of None \<Rightarrow> [] | Some ds \<Rightarrow> ds) @ [d]) else map_of m y)"
  by (induction m) auto

lemma groupByWY_snoc: "groupByWY (xs @ [x]) = groupStep (groupByWY xs) x"
  by (simp add: groupByWY_def)

lemma wyDays_snoc:
  "wyDays (xs @ [x]) y = wyDays xs y @ (if swe x \<noteq> None \<and> dateToWY (date x) = y then [x] else [])"
  by (simp add: wyDays_def)

lemma groupByWY_distinct: "distinct (map fst (groupByWY porData))"
proof (induction porData rule: rev_induct)
  case Nil
  then show ?case by (simp add: groupByWY_def)
next
  case (snoc x xs)
  then show ?case
    by (simp add: groupByWY_snoc groupStep_def pushWY_distinct split: option.split)
qed

lemma groupByWY_map_of:
  "map_of (groupByWY porData) y = (if wyDays porData y = [] then None else Some (wyDays porData y))"
proof (induction porData arbitrary: y rule: rev_induct)
  case Nil
  then show ?case by (simp add: groupByWY_def wyDays_def)
next
  case (snoc x xs)
  show ?case
  proof (cases "swe x")
    case None
    then show ?thesis
      using snoc by (simp add: groupByWY_snoc groupStep_def wyDays_snoc)
  next
    case (Some v)
    then show ?thesis
      using snoc [of y] snoc [of "dateToWY (date x)"]
      by (simp add: groupByWY_snoc groupStep_def wyDays_snoc pushWY_map_of split: if_splits)
  qed
qed

lemma groupByWY_set:
  "(k, ds) \<in> set (groupByWY porData) \<longleftrightarrow> ds = wyDays porData k \<and> ds \<noteq> []"
proof -
  have "(k, ds) \<in> set (groupByWY porData) \<longleftrightarrow> map_of (groupByWY porData) k = Some ds"
    using groupByWY_distinct by (simp add: map_of_eq_Some_iff)
  then show ?thesis
    by (auto simp: groupByWY_map_of)
qed

lemma summarize_Some:
  assumes "days \<noteq> []"
  shows "\<exists>s. summarize k days = Some s \<and> wy s = k"
proof -
  have "sort_key date days \<noteq> []"
    using assms by (metis length_sort list.size(3) length_0_conv)
  then obtain d0 rest where "sort_key date days = d0 # rest"
    by (cases "sort_key date days") auto
  then show ?thesis
    by (simp add: summarize_def Let_def split: prod.split)
qed

lemma summarize_wy: "summarize k days = Some s \<Longrightarrow> wy s = k"
  by (auto simp: summarize_def Let_def split: list.splits prod.splits)

lemma map_wy_summaries:
  "\<forall>(k, ds) \<in> set es. ds \<noteq> [] \<Longrightarrow>
     map wy (List.map_filter (\<lambda>(k, days). summarize k days) es) = map fst es"
proof (induction es)
  case Nil
  then show ?case by (simp add: List.map_filter_simps)
next
  case (Cons e es)
  obtain k ds where e: "e = (k, ds)" by (cases e)
  with Cons.prems have "ds \<noteq> []" by simp
  then obtain s where "summarize k ds = Some s" "wy s = k"
    using summarize_Some by blast
  with Cons show ?case by (simp add: e List.map_filter_simps)
qed


lemma map_insort_key: "map f (insort_key f x xs) = insort (f x) (map f xs)"
  by (induction xs) auto

lemma map_sort_key: "map f (sort_key f xs) = sort (map f xs)"
  by (induction xs) (auto simp: map_insort_key)

lemma entriesWY_set: "set (entriesWY m) = set m"
  by (simp add: entriesWY_def)

lemma entriesWY_distinct: "distinct (map fst m) \<Longrightarrow> distinct (map fst (entriesWY m))"
  by (simp add: entriesWY_def map_sort_key)

lemma waterYearsOf_keys:
  assumes "\<forall>(k, ds) \<in> set m. ds \<noteq> []"
  shows "map wy (waterYearsOf m) = sort (map fst (filter (\<lambda>(k, days). length days > 60) (entriesWY m)))"
proof -
  let ?P = "\<lambda>(k, days). length (days :: PORDay list) > 60"
  have "\<forall>(k, ds) \<in> set (filter ?P (entriesWY m)). ds \<noteq> []"
    by (auto simp: entriesWY_def)
  then have "map wy (List.map_filter (\<lambda>(k, days). summarize k days) (filter ?P (entriesWY m)))
               = map fst (filter ?P (entriesWY m))"
    by (rule map_wy_summaries)
  then show ?thesis
    by (simp add: waterYearsOf_def map_sort_key)
qed

lemma groupByWY_nonempty: "\<forall>(k, ds) \<in> set (groupByWY porData). ds \<noteq> []"
  by (auto simp: groupByWY_set)

lemma waterYears_keys_distinct: "distinct (map wy (waterYears porData))"
  by (simp add: waterYears_def waterYearsOf_keys [OF groupByWY_nonempty]
      distinct_map_filter entriesWY_distinct groupByWY_distinct)

lemma waterYears_keys_sorted: "sorted (map wy (waterYears porData))"
  by (simp add: waterYears_def waterYearsOf_keys [OF groupByWY_nonempty])

lemma set_map_filter': "set (List.map_filter f xs) = {y. \<exists>x \<in> set xs. f x = Some y}"
  by (induction xs) (auto simp: List.map_filter_simps split: option.splits)

lemma waterYears_set:
  "set (waterYears porData) =
     {s. \<exists>k. 60 < length (wyDays porData k) \<and> summarize k (wyDays porData k) = Some s}"
  (is "?L = ?R")
proof -
  have L: "?L = {s. \<exists>k ds. (k, ds) \<in> set (groupByWY porData) \<and> 60 < length ds \<and> summarize k ds = Some s}"
    by (auto simp: waterYears_def waterYearsOf_def set_map_filter' entriesWY_set)
  show ?thesis
  proof (rule set_eqI)
    fix s
    show "s \<in> ?L \<longleftrightarrow> s \<in> ?R"
    proof
      assume "s \<in> ?L"
      then obtain k ds where "(k, ds) \<in> set (groupByWY porData)" "60 < length ds" "summarize k ds = Some s"
        unfolding L by blast
      then show "s \<in> ?R"
        by (auto simp: groupByWY_set)
    next
      assume "s \<in> ?R"
      then obtain k where k: "60 < length (wyDays porData k)" "summarize k (wyDays porData k) = Some s"
        by blast
      then have "wyDays porData k \<noteq> []" by auto
      then have "(k, wyDays porData k) \<in> set (groupByWY porData)"
        by (simp add: groupByWY_set)
      with k show "s \<in> ?L"
        unfolding L by blast
    qed
  qed
qed

lemma waterYears_summarize:
  "s \<in> set (waterYears porData) \<Longrightarrow> summarize (wy s) (wyDays porData (wy s)) = Some s"
  by (auto simp: waterYears_set dest: summarize_wy)

lemma waterYears_keys:
  "wy ` set (waterYears porData) = {y. 60 < length (wyDays porData y)}"
proof (rule set_eqI)
  fix y
  show "y \<in> wy ` set (waterYears porData) \<longleftrightarrow> y \<in> {y. 60 < length (wyDays porData y)}"
  proof
    assume "y \<in> wy ` set (waterYears porData)"
    then obtain s k where "60 < length (wyDays porData k)" "summarize k (wyDays porData k) = Some s" "y = wy s"
      by (auto simp: waterYears_set)
    then show "y \<in> {y. 60 < length (wyDays porData y)}"
      by (auto dest: summarize_wy)
  next
    assume y: "y \<in> {y. 60 < length (wyDays porData y)}"
    then have "wyDays porData y \<noteq> []" by auto
    then obtain s where s: "summarize y (wyDays porData y) = Some s" "wy s = y"
      using summarize_Some by blast
    with y have "s \<in> set (waterYears porData)"
      by (auto simp: waterYears_set)
    with s show "y \<in> wy ` set (waterYears porData)"
      by force
  qed
qed

lemma count_by_key:
  "distinct (map f xs) \<Longrightarrow> length (filter (\<lambda>x. f x = y) xs) = (if y \<in> f ` set xs then 1 else 0)"
  by (induction xs) auto

lemma waterYears_count:
  "length (filter (\<lambda>s. wy s = y) (waterYears porData)) = (if 60 < length (wyDays porData y) then 1 else 0)"
  using count_by_key [OF waterYears_keys_distinct, of y porData]
  by (simp add: waterYears_keys)

lemma waterYears_length:
  "length (waterYears porData) = card {y. 60 < length (wyDays porData y)}"
proof -
  have "length (waterYears porData) = length (map wy (waterYears porData))" by simp
  also have "\<dots> = card (set (map wy (waterYears porData)))"
    using waterYears_keys_distinct by (simp only: distinct_card)
  also have "\<dots> = card {y. 60 < length (wyDays porData y)}"
    by (simp add: waterYears_keys)
  finally show ?thesis .
qed

subsection \<open>The peak loop and the summary of one water year\<close>

lemma peakLoop_spec:
  assumes "sorted (map date ds)"
  shows "pk \<le> fst (peakLoop ds (pk, pd))
       \<and> (\<forall>d \<in> set ds. \<forall>v. swe d = Some v \<longrightarrow> v \<le> fst (peakLoop ds (pk, pd)))
       \<and> (if fst (peakLoop ds (pk, pd)) > pk
          then (\<exists>d \<in> set ds. swe d = Some (fst (peakLoop ds (pk, pd))) \<and> date d = snd (peakLoop ds (pk, pd))
                 \<and> (\<forall>d' \<in> set ds. swe d' = Some (fst (peakLoop ds (pk, pd))) \<longrightarrow> date d \<le> date d'))
          else peakLoop ds (pk, pd) = (pk, pd))"
  using assms
proof (induction ds arbitrary: pk pd)
  case Nil
  then show ?case by simp
next
  case (Cons d ds)
  then have srt: "sorted (map date ds)" and le: "\<forall>d' \<in> set ds. date d \<le> date d'"
    by auto
  show ?case
  proof (cases "swe d")
    case None
    then show ?thesis
      using Cons.IH [OF srt, of pk pd] by (auto split: if_splits)
  next
    case (Some v)
    show ?thesis
    proof (cases "v > pk")
      case True
      let ?r = "peakLoop ds (v, date d)"
      have r: "peakLoop (d # ds) (pk, pd) = ?r"
        using Some True by simp
      note IH = Cons.IH [OF srt, of v "date d"]
      show ?thesis
      proof (cases "fst ?r > v")
        case True
        with IH \<open>v > pk\<close> Some show ?thesis
          unfolding r by (auto split: if_splits)
      next
        case False
        with IH have eq: "?r = (v, date d)" by (auto split: if_splits)
        with IH \<open>v > pk\<close> Some le show ?thesis
          unfolding r by (auto split: if_splits)
      qed
    next
      case False
      then have r: "peakLoop (d # ds) (pk, pd) = peakLoop ds (pk, pd)"
        using Some by simp
      from False Some Cons.IH [OF srt, of pk pd] show ?thesis
        unfolding r by (auto split: if_splits)
    qed
  qed
qed

lemma find_sorted_first:
  "sorted (map f xs) \<Longrightarrow> find P xs = Some a \<Longrightarrow> d \<in> set xs \<Longrightarrow> P d \<Longrightarrow> f a \<le> f d"
  by (induction xs) (auto split: if_splits)

lemma find_SomeD: "find P xs = Some a \<Longrightarrow> a \<in> set xs \<and> P a"
  by (induction xs) (auto split: if_splits)



lemma summarize_unfold:
  assumes "summarize k days = Some s"
  shows "days \<noteq> []"
    and "wy s = k"
    and "peakLoop (sort_key date days) (0, date (hd (sort_key date days))) = (peakSWE s, peakDate s)"
    and "onsetDate s = map_option date (find aboveOne (sort_key date days))"
    and "meltOutDate s = map_option date (find aboveOne (rev (filter (\<lambda>d. date d \<ge> peakDate s) (sort_key date days))))"
proof -
  define xs where "xs = sort_key date days"
  obtain pk pd where r: "peakLoop xs (0, date (hd xs)) = (pk, pd)"
    by (cases "peakLoop xs (0, date (hd xs))")
  have ne: "xs \<noteq> []"
  proof
    assume "xs = []"
    then have "summarize k days = None"
      by (simp add: summarize_def xs_def)
    with assms show False by simp
  qed
  have "summarize k days =
          Some \<lparr> wy = k, peakSWE = pk, peakDate = pd,
                 onsetDate = map_option date (find aboveOne xs),
                 meltOutDate = map_option date (find aboveOne (rev (filter (\<lambda>d. date d \<ge> pd) xs))),
                 seasonDays = seasonDaysOf (map_option date (find aboveOne xs))
                                (map_option date (find aboveOne (rev (filter (\<lambda>d. date d \<ge> pd) xs)))) \<rparr>"
    by (simp only: summarize_def Let_def xs_def [symmetric] list.case_eq_if ne if_False r prod.case)
  with assms have s: "s = \<lparr> wy = k, peakSWE = pk, peakDate = pd,
                 onsetDate = map_option date (find aboveOne xs),
                 meltOutDate = map_option date (find aboveOne (rev (filter (\<lambda>d. date d \<ge> pd) xs))),
                 seasonDays = seasonDaysOf (map_option date (find aboveOne xs))
                                (map_option date (find aboveOne (rev (filter (\<lambda>d. date d \<ge> pd) xs)))) \<rparr>"
    by simp
  show "days \<noteq> []" using ne by (auto simp: xs_def)
  show "wy s = k" by (simp add: s)
  show "peakLoop (sort_key date days) (0, date (hd (sort_key date days))) = (peakSWE s, peakDate s)"
    using r by (simp add: s xs_def)
  show "onsetDate s = map_option date (find aboveOne (sort_key date days))"
    by (simp add: s xs_def)
  show "meltOutDate s = map_option date (find aboveOne (rev (filter (\<lambda>d. date d \<ge> peakDate s) (sort_key date days))))"
    by (simp add: s xs_def)
qed


lemma peakLoop_upper:
  "sorted (map date ds) \<Longrightarrow> d \<in> set ds \<Longrightarrow> swe d = Some v \<Longrightarrow> v \<le> fst (peakLoop ds (pk, pd))"
  using peakLoop_spec [of ds pk pd] by blast

lemma peakLoop_attained:
  assumes "sorted (map date ds)" and "pk < fst (peakLoop ds (pk, pd))"
  shows "\<exists>d \<in> set ds. swe d = Some (fst (peakLoop ds (pk, pd))) \<and> date d = snd (peakLoop ds (pk, pd))
                 \<and> (\<forall>d' \<in> set ds. swe d' = Some (fst (peakLoop ds (pk, pd))) \<longrightarrow> date d \<le> date d')"
proof -
  define r where "r = peakLoop ds (pk, pd)"
  have "if fst r > pk
          then (\<exists>d \<in> set ds. swe d = Some (fst r) \<and> date d = snd r
                 \<and> (\<forall>d' \<in> set ds. swe d' = Some (fst r) \<longrightarrow> date d \<le> date d'))
          else r = (pk, pd)"
    unfolding r_def using peakLoop_spec [OF assms(1), of pk pd] by (rule conjunct2 [THEN conjunct2])
  moreover have "fst r > pk" using assms(2) by (simp add: r_def)
  ultimately show ?thesis
    unfolding r_def [symmetric] by (simp only: if_True)
qed

lemma peakLoop_unchanged:
  assumes "sorted (map date ds)" and "\<not> pk < fst (peakLoop ds (pk, pd))"
  shows "peakLoop ds (pk, pd) = (pk, pd)"
proof -
  define r where "r = peakLoop ds (pk, pd)"
  have "if fst r > pk
          then (\<exists>d \<in> set ds. swe d = Some (fst r) \<and> date d = snd r
                 \<and> (\<forall>d' \<in> set ds. swe d' = Some (fst r) \<longrightarrow> date d \<le> date d'))
          else r = (pk, pd)"
    unfolding r_def using peakLoop_spec [OF assms(1), of pk pd] by (rule conjunct2 [THEN conjunct2])
  moreover have "\<not> fst r > pk" using assms(2) by (simp add: r_def)
  ultimately show ?thesis
    unfolding r_def [symmetric] by (simp only: if_False)
qed

lemma summarize_order:
  assumes "summarize k days = Some s"
  shows "(\<forall>a. onsetDate s = Some a \<longrightarrow> a \<le> peakDate s) \<and> (\<forall>b. meltOutDate s = Some b \<longrightarrow> peakDate s \<le> b)"
proof -
  define xs where "xs = sort_key date days"
  have r: "peakLoop xs (0, date (hd xs)) = (peakSWE s, peakDate s)"
    using summarize_unfold(3) [OF assms] by (simp add: xs_def)
  have srt: "sorted (map date xs)" by (simp add: xs_def)
  have onset: "onsetDate s = map_option date (find aboveOne xs)"
    using summarize_unfold(4) [OF assms] by (simp add: xs_def)
  have melt: "meltOutDate s = map_option date (find aboveOne (rev (filter (\<lambda>d. date d \<ge> peakDate s) xs)))"
    using summarize_unfold(5) [OF assms] by (simp add: xs_def)
  have "a \<le> peakDate s" if "onsetDate s = Some a" for a
  proof -
    from that onset obtain d where d: "find aboveOne xs = Some d" "date d = a"
      by auto
    have din: "d \<in> set xs" and "aboveOne d"
      using find_SomeD [OF d(1)] by simp_all
    then obtain v where v: "swe d = Some v" "v > 1"
      by (auto simp: aboveOne_def split: option.splits)
    have "v \<le> peakSWE s"
      using peakLoop_upper [OF srt din v(1), of 0 "date (hd xs)"] by (simp add: r)
    with v have pos: "0 < peakSWE s" "1 < peakSWE s" by auto
    obtain p where p: "p \<in> set xs" "swe p = Some (peakSWE s)" "date p = peakDate s"
      using peakLoop_attained [OF srt, of 0 "date (hd xs)"] pos(1) unfolding r by auto
    with pos have "aboveOne p" by (simp add: aboveOne_def)
    with find_sorted_first [OF srt d(1) p(1)] have "date d \<le> date p" by simp
    with d p show ?thesis by simp
  qed
  moreover have "peakDate s \<le> b" if "meltOutDate s = Some b" for b
  proof -
    from that melt obtain d where d: "find aboveOne (rev (filter (\<lambda>d. date d \<ge> peakDate s) xs)) = Some d" "date d = b"
      by auto
    have "d \<in> set (rev (filter (\<lambda>d. date d \<ge> peakDate s) xs))"
      using find_SomeD [OF d(1)] by (rule conjunct1)
    with d show ?thesis by simp
  qed
  ultimately show ?thesis by blast
qed

lemma sort_key_hd_min:
  assumes "days \<noteq> []"
  shows "hd (sort_key f days) \<in> set days \<and> (\<forall>d \<in> set days. f (hd (sort_key f days)) \<le> f d)"
proof -
  define xs where "xs = sort_key f days"
  have srt: "sorted (map f xs)" and st: "set xs = set days"
    by (simp_all add: xs_def)
  from assms st have "xs \<noteq> []" by auto
  then obtain x rest where xs: "xs = x # rest" by (cases xs) auto
  from srt have "\<forall>d \<in> set xs. f x \<le> f d"
    unfolding xs by auto
  then show ?thesis
    unfolding xs_def [symmetric] using xs st by auto
qed

lemma summarize_peak:
  assumes s: "summarize k days = Some s"
    and valid: "\<forall>d \<in> set days. swe d \<noteq> None"
    and nonneg: "(\<exists>v \<in> set (List.map_filter swe days). 0 < v) \<or> (\<forall>v \<in> set (List.map_filter swe days). 0 \<le> v)"
  shows "peakSWE s = Max (set (List.map_filter swe days))
       \<and> peakDate s = Min (set (map date (filter (\<lambda>d. swe d = Some (peakSWE s)) days)))"
proof -
  define xs where "xs = sort_key date days"
  define V where "V = set (List.map_filter swe days)"
  have r: "peakLoop xs (0, date (hd xs)) = (peakSWE s, peakDate s)"
    using summarize_unfold(3) [OF s] by (simp add: xs_def)
  have srt: "sorted (map date xs)" and st: "set xs = set days"
    by (simp_all add: xs_def)
  have ne: "days \<noteq> []" using summarize_unfold(1) [OF s] .
  have V: "V = {v. \<exists>d \<in> set days. swe d = Some v}"
    by (simp add: V_def set_map_filter')
  have ub: "v \<le> peakSWE s" if "v \<in> V" for v
  proof -
    from that obtain d where "d \<in> set xs" "swe d = Some v"
      unfolding V st by blast
    from peakLoop_upper [OF srt this, of 0 "date (hd xs)"] show ?thesis
      by (simp add: r)
  qed
  have d0: "hd xs \<in> set days" "\<forall>d \<in> set days. date (hd xs) \<le> date d"
    using sort_key_hd_min [OF ne, of date] by (simp_all add: xs_def)
  have key: "\<exists>p \<in> set days. swe p = Some (peakSWE s) \<and> date p = peakDate s
              \<and> (\<forall>d' \<in> set days. swe d' = Some (peakSWE s) \<longrightarrow> date p \<le> date d')"
  proof (cases "0 < peakSWE s")
    case True
    then have "0 < fst (peakLoop xs (0, date (hd xs)))" by (simp add: r)
    from peakLoop_attained [OF srt this] show ?thesis
      unfolding r st by simp
  next
    case False
    then have "\<not> 0 < fst (peakLoop xs (0, date (hd xs)))" by (simp add: r)
    from peakLoop_unchanged [OF srt this] have pk0: "peakSWE s = 0" "peakDate s = date (hd xs)"
      unfolding r by simp_all
    have le0: "\<forall>v \<in> V. v \<le> 0" using ub pk0 by auto
    have all0: "\<forall>v \<in> V. v = 0"
    proof
      fix v assume v: "v \<in> V"
      from nonneg le0 have "\<forall>v \<in> V. 0 \<le> v"
        unfolding V_def [symmetric] by fastforce
      with v le0 show "v = 0" by fastforce
    qed
    from valid d0(1) obtain v where v: "swe (hd xs) = Some v" by auto
    with d0(1) have "v \<in> V" unfolding V by blast
    with all0 v have "swe (hd xs) = Some 0" by simp
    with d0 pk0 show ?thesis by auto
  qed
  then obtain p where p: "p \<in> set days" "swe p = Some (peakSWE s)" "date p = peakDate s"
      "\<forall>d' \<in> set days. swe d' = Some (peakSWE s) \<longrightarrow> date p \<le> date d'"
    by blast
  have "peakSWE s \<in> V" using p unfolding V by blast
  moreover have "finite V" by (simp add: V_def)
  ultimately have "Max V = peakSWE s"
    using ub by (intro Max_eqI) auto
  moreover have "Min (set (map date (filter (\<lambda>d. swe d = Some (peakSWE s)) days))) = peakDate s"
  proof (rule Min_eqI)
    show "finite (set (map date (filter (\<lambda>d. swe d = Some (peakSWE s)) days)))" by simp
    show "peakDate s \<le> y" if "y \<in> set (map date (filter (\<lambda>d. swe d = Some (peakSWE s)) days))" for y
      using that p by auto
    have "p \<in> set (filter (\<lambda>d. swe d = Some (peakSWE s)) days)" using p by simp
    then have "date p \<in> set (map date (filter (\<lambda>d. swe d = Some (peakSWE s)) days))"
      by (simp only: set_map image_eqI)
    then show "peakDate s \<in> set (map date (filter (\<lambda>d. swe d = Some (peakSWE s)) days))"
      using p(3) by simp
  qed
  ultimately show ?thesis by (simp add: V_def)
qed

lemma summarize_peak_general:
  assumes s: "summarize k days = Some s"
  shows "peakSWE s = Max (insert 0 (set (List.map_filter swe days)))"
proof -
  define xs where "xs = sort_key date days"
  define V where "V = set (List.map_filter swe days)"
  have r: "peakLoop xs (0, date (hd xs)) = (peakSWE s, peakDate s)"
    using summarize_unfold(3) [OF s] by (simp add: xs_def)
  have srt: "sorted (map date xs)" and st: "set xs = set days"
    by (simp_all add: xs_def)
  have V: "V = {v. \<exists>d \<in> set days. swe d = Some v}"
    by (simp add: V_def set_map_filter')
  have ub: "v \<le> peakSWE s" if "v \<in> V" for v
  proof -
    from that obtain d where "d \<in> set xs" "swe d = Some v"
      unfolding V st by blast
    from peakLoop_upper [OF srt this, of 0 "date (hd xs)"] show ?thesis
      by (simp add: r)
  qed
  have "peakSWE s \<in> insert 0 V"
  proof (cases "0 < peakSWE s")
    case True
    then have "0 < fst (peakLoop xs (0, date (hd xs)))" by (simp add: r)
    from peakLoop_attained [OF srt this] show ?thesis
      unfolding r st V by auto
  next
    case False
    then have "\<not> 0 < fst (peakLoop xs (0, date (hd xs)))" by (simp add: r)
    from peakLoop_unchanged [OF srt this] show ?thesis
      unfolding r by simp
  qed
  moreover have "0 \<le> peakSWE s"
    using peakLoop_spec [OF srt, of 0 "date (hd xs)"] unfolding r by simp
  moreover have "finite (insert 0 V)" by (simp add: V_def)
  ultimately have "Max (insert 0 V) = peakSWE s"
    using ub by (intro Max_eqI) auto
  then show ?thesis by (simp add: V_def)
qed

subsection \<open>The example series\<close>

lemma por61_summary:
  "waterYears por61 =
     [\<lparr> wy = 2021, peakSWE = 12, peakDate = Date 2020 11 10,
        onsetDate = Some (Date 2020 10 12), meltOutDate = Some (Date 2020 11 30),
        seasonDays = 49 \<rparr>]"
  by code_simp

lemma por61_values_max: "Max (set (wyValues por61 2021)) = 12"
  by code_simp

lemma por3_summaries:
  "waterYears por3 =
     [\<lparr> wy = 2019, peakSWE = 10, peakDate = Date 2018 10 1, onsetDate = Some (Date 2018 10 1),
        meltOutDate = Some (Date 2018 10 31), seasonDays = 30 \<rparr>,
      \<lparr> wy = 2020, peakSWE = 50, peakDate = Date 2019 10 1, onsetDate = Some (Date 2019 10 1),
        meltOutDate = Some (Date 2019 10 31), seasonDays = 30 \<rparr>,
      \<lparr> wy = 2021, peakSWE = 90, peakDate = Date 2020 10 1, onsetDate = Some (Date 2020 10 1),
        meltOutDate = Some (Date 2020 10 31), seasonDays = 30 \<rparr>]"
  by code_simp


subsection \<open>Segmentation threshold\<close>

text \<open>
  C1 (as amended). The segmentation step produces a summary for water year \<open>y\<close> if and
  only if the series holds more than 60 valid (non-missing) observations of \<open>y\<close>, that
  is at least 61, and then it produces exactly one. A year with 59 or with 60 valid
  observations gets no summary.
\<close>

theorem C1_summary_iff_more_than_60:
  "((\<exists>s \<in> set (waterYears porData). wy s = y) \<longleftrightarrow> 60 < length (wyDays porData y))
   \<and> length (filter (\<lambda>s. wy s = y) (waterYears porData))
       = (if 60 < length (wyDays porData y) then 1 else 0)"
proof -
  have "(\<exists>s \<in> set (waterYears porData). wy s = y) \<longleftrightarrow> y \<in> wy ` set (waterYears porData)"
    by auto
  then show ?thesis
    by (simp add: waterYears_keys waterYears_count)
qed

text \<open>The instances named by the claim: 59 valid observations, and 61.\<close>

theorem C1_summary_59_and_61:
  "length (wyDays por59 2021) = 59
   \<and> length (filter (\<lambda>s. wy s = 2021) (waterYears por59)) = 0
   \<and> length (wyDays por61 2021) = 61
   \<and> length (filter (\<lambda>s. wy s = 2021) (waterYears por61)) = 1"
proof -
  have a: "length (wyDays por59 2021) = 59" by code_simp
  have b: "length (wyDays por61 2021) = 61" by code_simp
  from a b show ?thesis
    using C1_summary_iff_more_than_60 [of por59 2021] C1_summary_iff_more_than_60 [of por61 2021]
    by simp
qed

text \<open>
  The claim as stated (``at least 60'') fails: a water year with exactly 60 valid
  observations is dropped by \<^verbatim>\<open>days.length > 60\<close>.
\<close>

theorem C1_sixty_observations_no_summary:
  "60 \<le> length (wyDays por60 2021) \<and> waterYears por60 = []"
  by code_simp

subsection \<open>Peak value and peak date\<close>

text \<open>
  C2 (as amended). For every water year that receives a summary, \<open>peakSWE\<close> is the
  larger of 0 and the maximum of the year's observed values. When the observed values
  include a positive value, or include no negative value, \<open>peakSWE\<close> is the maximum of
  the year's observed values and \<open>peakDate\<close> is the earliest date on which that maximum
  is observed.
\<close>

theorem C2_peak_is_max_at_earliest_date:
  assumes "s \<in> set (waterYears porData)"
  shows "peakSWE s = Max (insert 0 (set (wyValues porData (wy s))))
       \<and> ((\<exists>v \<in> set (wyValues porData (wy s)). 0 < v) \<or> (\<forall>v \<in> set (wyValues porData (wy s)). 0 \<le> v)
            \<longrightarrow> peakSWE s = Max (set (wyValues porData (wy s)))
              \<and> peakDate s = Min (set (map date (filter (\<lambda>d. swe d = Some (peakSWE s))
                                                      (wyDays porData (wy s))))))"
proof -
  have s: "summarize (wy s) (wyDays porData (wy s)) = Some s"
    using assms by (rule waterYears_summarize)
  have valid: "\<forall>d \<in> set (wyDays porData (wy s)). swe d \<noteq> None"
    by (simp add: wyDays_def)
  have "peakSWE s = Max (insert 0 (set (wyValues porData (wy s))))"
    unfolding wyValues_def using s by (rule summarize_peak_general)
  moreover have "peakSWE s = Max (set (wyValues porData (wy s)))
              \<and> peakDate s = Min (set (map date (filter (\<lambda>d. swe d = Some (peakSWE s))
                                                      (wyDays porData (wy s)))))"
    if "(\<exists>v \<in> set (wyValues porData (wy s)). 0 < v) \<or> (\<forall>v \<in> set (wyValues porData (wy s)). 0 \<le> v)"
    using s valid that unfolding wyValues_def by (rule summarize_peak)
  ultimately show ?thesis by blast
qed

text \<open>
  On the example series the maximum 12 is observed on two dates; the summary takes
  the earlier one.
\<close>

theorem C2_peak_example:
  "waterYears por61 ! 0 \<in> set (waterYears por61)
   \<and> wy (waterYears por61 ! 0) = 2021
   \<and> Max (set (wyValues por61 2021)) = 12
   \<and> peakSWE (waterYears por61 ! 0) = 12
   \<and> map date (filter (\<lambda>d. swe d = Some 12) (wyDays por61 2021)) = [Date 2020 11 10, Date 2020 11 21]
   \<and> peakDate (waterYears por61 ! 0) = Date 2020 11 10"
proof -
  let ?s = "waterYears por61 ! 0"
  have m: "?s \<in> set (waterYears por61)" by (simp add: por61_summary)
  have y: "wy ?s = 2021" by (simp add: por61_summary)
  note v = por61_values_max
  have "\<exists>v \<in> set (wyValues por61 2021). 0 < v" by code_simp
  then have p: "(\<exists>v \<in> set (wyValues por61 2021). 0 < v) \<or> (\<forall>v \<in> set (wyValues por61 2021). 0 \<le> v)"
    by (rule disjI1)
  have ds: "map date (filter (\<lambda>d. swe d = Some 12) (wyDays por61 2021)) = [Date 2020 11 10, Date 2020 11 21]"
    by code_simp
  have mn: "Min (set [Date 2020 11 10, Date 2020 11 21]) = Date 2020 11 10"
    by (simp add: less_eq_date_def)
  from C2_peak_is_max_at_earliest_date [OF m, unfolded y] p
  have c: "peakSWE ?s = Max (set (wyValues por61 2021))
         \<and> peakDate ?s = Min (set (map date (filter (\<lambda>d. swe d = Some (peakSWE ?s)) (wyDays por61 2021))))"
    by blast
  from c v have pk: "peakSWE ?s = 12" by simp
  from c have "peakDate ?s = Min (set (map date (filter (\<lambda>d. swe d = Some 12) (wyDays por61 2021))))"
    unfolding pk by (rule conjunct2)
  then have pd: "peakDate ?s = Date 2020 11 10"
    unfolding ds mn .
  from m y v pk ds pd show ?thesis by blast
qed

text \<open>
  The claim as stated fails when every observed value of the year is negative:
  \<^verbatim>\<open>peakSWE\<close> starts at 0 and is only replaced by a greater value, so the summary
  reports a peak of 0 although the maximum of the observed values is -1.
\<close>

theorem C2_negative_values_peak_zero:
  "map wy (waterYears porNeg) = [2021]
   \<and> map peakSWE (waterYears porNeg) = [0]
   \<and> Max (set (wyValues porNeg 2021)) = - 1"
  by code_simp

subsection \<open>Onset, peak and melt-out dates\<close>

text \<open>
  C3. In every summary produced by the segmentation, an onset date, when present, is
  not after the peak date, and a melt-out date, when present, is not before it.
\<close>

theorem C3_onset_peak_meltout_order:
  assumes "s \<in> set (waterYears porData)"
  shows "(\<forall>a. onsetDate s = Some a \<longrightarrow> a \<le> peakDate s)
       \<and> (\<forall>b. meltOutDate s = Some b \<longrightarrow> peakDate s \<le> b)"
  using waterYears_summarize [OF assms] by (rule summarize_order)

theorem C3_order_example:
  "waterYears por61 ! 0 \<in> set (waterYears por61)
   \<and> onsetDate (waterYears por61 ! 0) = Some (Date 2020 10 12)
   \<and> meltOutDate (waterYears por61 ! 0) = Some (Date 2020 11 30)
   \<and> Date 2020 10 12 \<le> peakDate (waterYears por61 ! 0)
   \<and> peakDate (waterYears por61 ! 0) \<le> Date 2020 11 30"
proof -
  let ?s = "waterYears por61 ! 0"
  have m: "?s \<in> set (waterYears por61)" by (simp add: por61_summary)
  have a: "onsetDate ?s = Some (Date 2020 10 12)" by (simp add: por61_summary)
  have b: "meltOutDate ?s = Some (Date 2020 11 30)" by (simp add: por61_summary)
  from C3_onset_peak_meltout_order [OF m] a b m show ?thesis
    by simp
qed

subsection \<open>Evaluating the rounding\<close>

lemma scaleUp_pow:
  "0 < m \<Longrightarrow> 4503599627370496 \<le> m * 2 ^ k \<Longrightarrow> m * 2 ^ k < 9007199254740992 \<Longrightarrow>
     scaleUp m s = (m * 2 ^ k, s / 2 ^ k)"
proof (induction k arbitrary: m s)
  case 0
  then show ?case by (simp add: scaleUp.simps)
next
  case (Suc k)
  have "(1::real) \<le> 2 ^ k" by simp
  then have "m * 1 \<le> m * 2 ^ k" using Suc.prems(1) by (intro mult_left_mono) auto
  with Suc.prems(3) have lt: "m < 4503599627370496" by simp
  have "scaleUp (2 * m) (s / 2) = (2 * m * 2 ^ k, s / 2 / 2 ^ k)"
    using Suc.prems by (intro Suc.IH) (simp_all add: mult.assoc mult.left_commute)
  with lt Suc.prems(1) show ?case
    by (subst scaleUp.simps) (simp add: mult.assoc mult.left_commute)
qed

lemma scaleDown_pow:
  "4503599627370496 \<le> m / 2 ^ k \<Longrightarrow> m / 2 ^ k < 9007199254740992 \<Longrightarrow>
     scaleDown m s = (m / 2 ^ k, s * 2 ^ k)"
proof (induction k arbitrary: m s)
  case 0
  then show ?case by (simp add: scaleDown.simps)
next
  case (Suc k)
  have "(1::real) \<le> 2 ^ k" by simp
  have "0 < m / 2 ^ Suc k" using Suc.prems(1) by linarith
  then have pos: "0 < m" by (simp add: zero_less_divide_iff)
  have "m / 2 ^ Suc k \<le> m / 2 / 1"
    using pos \<open>(1::real) \<le> 2 ^ k\<close> by (simp add: field_simps)
  with Suc.prems(1) have ge: "9007199254740992 \<le> m" by simp
  have "scaleDown (m / 2) (s * 2) = (m / 2 / 2 ^ k, s * 2 * 2 ^ k)"
    using Suc.prems by (intro Suc.IH) (simp_all add: field_simps)
  with ge show ?case
    by (subst scaleDown.simps) (simp add: field_simps)
qed

lemma fl_zero: "fl 0 = 0"
  by (simp add: fl_def)

lemma fl_up:
  assumes "x \<noteq> 0" and "4503599627370496 \<le> \<bar>x\<bar> * 2 ^ k" and "\<bar>x\<bar> * 2 ^ k < 9007199254740992"
  shows "fl x = sgn x * (real_of_int (roundHalfEven (\<bar>x\<bar> * 2 ^ k)) / 2 ^ k)"
proof -
  have "scaleUp \<bar>x\<bar> 1 = (\<bar>x\<bar> * 2 ^ k, 1 / 2 ^ k)"
    using assms by (intro scaleUp_pow) auto
  moreover have "scaleDown (\<bar>x\<bar> * 2 ^ k) (1 / 2 ^ k) = (\<bar>x\<bar> * 2 ^ k, 1 / 2 ^ k)"
    using assms(3) by (subst scaleDown.simps) simp
  ultimately show ?thesis
    using assms(1) by (simp add: fl_def)
qed

lemma fl_down:
  assumes "4503599627370496 \<le> \<bar>x\<bar> / 2 ^ k" and "\<bar>x\<bar> / 2 ^ k < 9007199254740992"
  shows "fl x = sgn x * (real_of_int (roundHalfEven (\<bar>x\<bar> / 2 ^ k)) * 2 ^ k)"
proof -
  have "(0::real) < 2 ^ k" by simp
  have big: "4503599627370496 \<le> \<bar>x\<bar>"
  proof -
    have "\<bar>x\<bar> / 2 ^ k \<le> \<bar>x\<bar> / 1"
      by (intro divide_left_mono) auto
    with assms(1) show ?thesis by simp
  qed
  then have nz: "x \<noteq> 0" by auto
  have "scaleUp \<bar>x\<bar> 1 = (\<bar>x\<bar>, 1)"
    using big by (subst scaleUp.simps) simp
  moreover have "scaleDown \<bar>x\<bar> 1 = (\<bar>x\<bar> / 2 ^ k, 1 * 2 ^ k)"
    using assms by (intro scaleDown_pow)
  ultimately show ?thesis
    using nz by (simp add: fl_def)
qed

lemmas fl_ops = fadd_def fsub_def fmul_def fdiv_def fl_zero roundHalfEven_def

lemma fl_minus: "fl (- x) = - fl x"
  by (simp add: fl_def split: prod.splits)

text \<open>
  The rounding of a literal number: \<open>fl_up\<close> at the literal and at the power of two
  that scales it into \<open>[2^52, 2^53)\<close>, for the powers that the examples below need.
\<close>

lemmas fl_num =
  fl_up [where x = 1 and k = 52]
  fl_up [where x = "numeral a" and k = 27 for a] fl_up [where x = "numeral a / numeral b" and k = 27 for a b]
  fl_up [where x = "1 / numeral b" and k = 27 for b]
  fl_up [where x = "numeral a" and k = 29 for a] fl_up [where x = "numeral a / numeral b" and k = 29 for a b]
  fl_up [where x = "1 / numeral b" and k = 29 for b]
  fl_up [where x = "numeral a" and k = 30 for a] fl_up [where x = "numeral a / numeral b" and k = 30 for a b]
  fl_up [where x = "1 / numeral b" and k = 30 for b]
  fl_up [where x = "numeral a" and k = 31 for a] fl_up [where x = "numeral a / numeral b" and k = 31 for a b]
  fl_up [where x = "1 / numeral b" and k = 31 for b]
  fl_up [where x = "numeral a" and k = 33 for a] fl_up [where x = "numeral a / numeral b" and k = 33 for a b]
  fl_up [where x = "1 / numeral b" and k = 33 for b]
  fl_up [where x = "numeral a" and k = 34 for a] fl_up [where x = "numeral a / numeral b" and k = 34 for a b]
  fl_up [where x = "1 / numeral b" and k = 34 for b]
  fl_up [where x = "numeral a" and k = 35 for a] fl_up [where x = "numeral a / numeral b" and k = 35 for a b]
  fl_up [where x = "1 / numeral b" and k = 35 for b]
  fl_up [where x = "numeral a" and k = 36 for a] fl_up [where x = "numeral a / numeral b" and k = 36 for a b]
  fl_up [where x = "1 / numeral b" and k = 36 for b]
  fl_up [where x = "numeral a" and k = 38 for a] fl_up [where x = "numeral a / numeral b" and k = 38 for a b]
  fl_up [where x = "1 / numeral b" and k = 38 for b]
  fl_up [where x = "numeral a" and k = 40 for a] fl_up [where x = "numeral a / numeral b" and k = 40 for a b]
  fl_up [where x = "1 / numeral b" and k = 40 for b]
  fl_up [where x = "numeral a" and k = 41 for a] fl_up [where x = "numeral a / numeral b" and k = 41 for a b]
  fl_up [where x = "1 / numeral b" and k = 41 for b]
  fl_up [where x = "numeral a" and k = 42 for a] fl_up [where x = "numeral a / numeral b" and k = 42 for a b]
  fl_up [where x = "1 / numeral b" and k = 42 for b]
  fl_up [where x = "numeral a" and k = 43 for a] fl_up [where x = "numeral a / numeral b" and k = 43 for a b]
  fl_up [where x = "1 / numeral b" and k = 43 for b]
  fl_up [where x = "numeral a" and k = 44 for a] fl_up [where x = "numeral a / numeral b" and k = 44 for a b]
  fl_up [where x = "1 / numeral b" and k = 44 for b]
  fl_up [where x = "numeral a" and k = 45 for a] fl_up [where x = "numeral a / numeral b" and k = 45 for a b]
  fl_up [where x = "1 / numeral b" and k = 45 for b]
  fl_up [where x = "numeral a" and k = 46 for a] fl_up [where x = "numeral a / numeral b" and k = 46 for a b]
  fl_up [where x = "1 / numeral b" and k = 46 for b]
  fl_up [where x = "numeral a" and k = 47 for a] fl_up [where x = "numeral a / numeral b" and k = 47 for a b]
  fl_up [where x = "1 / numeral b" and k = 47 for b]
  fl_up [where x = "numeral a" and k = 48 for a] fl_up [where x = "numeral a / numeral b" and k = 48 for a b]
  fl_up [where x = "1 / numeral b" and k = 48 for b]
  fl_up [where x = "numeral a" and k = 49 for a] fl_up [where x = "numeral a / numeral b" and k = 49 for a b]
  fl_up [where x = "1 / numeral b" and k = 49 for b]
  fl_up [where x = "numeral a" and k = 50 for a] fl_up [where x = "numeral a / numeral b" and k = 50 for a b]
  fl_up [where x = "1 / numeral b" and k = 50 for b]
  fl_up [where x = "numeral a" and k = 51 for a] fl_up [where x = "numeral a / numeral b" and k = 51 for a b]
  fl_up [where x = "1 / numeral b" and k = 51 for b]
  fl_up [where x = "numeral a" and k = 52 for a] fl_up [where x = "numeral a / numeral b" and k = 52 for a b]
  fl_up [where x = "1 / numeral b" and k = 52 for b]
  fl_up [where x = "numeral a" and k = 53 for a] fl_up [where x = "numeral a / numeral b" and k = 53 for a b]
  fl_up [where x = "1 / numeral b" and k = 53 for b]
  fl_up [where x = "numeral a" and k = 54 for a] fl_up [where x = "numeral a / numeral b" and k = 54 for a b]
  fl_up [where x = "1 / numeral b" and k = 54 for b]
  fl_up [where x = "numeral a" and k = 55 for a] fl_up [where x = "numeral a / numeral b" and k = 55 for a b]
  fl_up [where x = "1 / numeral b" and k = 55 for b]
  fl_up [where x = "numeral a" and k = 56 for a] fl_up [where x = "numeral a / numeral b" and k = 56 for a b]
  fl_up [where x = "1 / numeral b" and k = 56 for b]
  fl_up [where x = "numeral a" and k = 85 for a] fl_up [where x = "numeral a / numeral b" and k = 85 for a b]
  fl_up [where x = "1 / numeral b" and k = 85 for b]
  fl_up [where x = "numeral a" and k = 86 for a] fl_up [where x = "numeral a / numeral b" and k = 86 for a b]
  fl_up [where x = "1 / numeral b" and k = 86 for b]
  fl_up [where x = "numeral a" and k = 94 for a] fl_up [where x = "numeral a / numeral b" and k = 94 for a b]
  fl_up [where x = "1 / numeral b" and k = 94 for b]
  fl_up [where x = "numeral a" and k = 97 for a] fl_up [where x = "numeral a / numeral b" and k = 97 for a b]
  fl_up [where x = "1 / numeral b" and k = 97 for b]
  fl_up [where x = "numeral a" and k = 101 for a] fl_up [where x = "numeral a / numeral b" and k = 101 for a b]
  fl_up [where x = "1 / numeral b" and k = 101 for b]
  fl_up [where x = "numeral a" and k = 102 for a] fl_up [where x = "numeral a / numeral b" and k = 102 for a b]
  fl_up [where x = "1 / numeral b" and k = 102 for b]
  fl_up [where x = "numeral a" and k = 108 for a] fl_up [where x = "numeral a / numeral b" and k = 108 for a b]
  fl_up [where x = "1 / numeral b" and k = 108 for b]
  fl_up [where x = "numeral a" and k = 141 for a] fl_up [where x = "numeral a / numeral b" and k = 141 for a b]
  fl_up [where x = "1 / numeral b" and k = 141 for b]
  fl_up [where x = "numeral a" and k = 142 for a] fl_up [where x = "numeral a / numeral b" and k = 142 for a b]
  fl_up [where x = "1 / numeral b" and k = 142 for b]
  fl_up [where x = "numeral a" and k = 163 for a] fl_up [where x = "numeral a / numeral b" and k = 163 for a b]
  fl_up [where x = "1 / numeral b" and k = 163 for b]
  fl_up [where x = "numeral a" and k = 164 for a] fl_up [where x = "numeral a / numeral b" and k = 164 for a b]
  fl_up [where x = "1 / numeral b" and k = 164 for b]

lemmas fl_lit = fl_ops fl_minus fl_num

lemma tenths_doubles:
  "fl (1 / 10) = 3602879701896397 / 36028797018963968"
  "fl (1 / 5) = 3602879701896397 / 18014398509481984"
  "fl (3 / 10) = 5404319552844595 / 18014398509481984"
  "fl (2 / 5) = 3602879701896397 / 9007199254740992"
  "fl (7 / 10) = 3152519739159347 / 4503599627370496"
  "fl (23 / 10) = 2589569785738035 / 1125899906842624"
  "fl (33 / 10) = 3715469692580659 / 1125899906842624"
  "fl (23 / 5) = 2589569785738035 / 562949953421312"
  by (simp_all add: fl_lit)

lemma scaleUp_inv:
  "0 < m \<Longrightarrow> 0 < s \<Longrightarrow> scaleUp m s = (m', s') \<Longrightarrow>
     m' * s' = m * s \<and> 0 < s' \<and> 4503599627370496 \<le> m'
     \<and> (m < 9007199254740992 \<longrightarrow> m' < 9007199254740992)"
proof (induction m s rule: scaleUp.induct)
  case (1 m s)
  show ?case
  proof (cases "m < 4503599627370496")
    case True
    with 1(2) 1(4) have e: "scaleUp (2 * m) (s / 2) = (m', s')"
      by (simp add: scaleUp.simps [of m s])
    have "0 < m \<and> m < 4503599627370496" using 1(2) True by simp
    from 1(1) [OF this _ _ e] 1(2) 1(3)
    have "m' * s' = 2 * m * (s / 2) \<and> 0 < s' \<and> 4503599627370496 \<le> m'
            \<and> (2 * m < 9007199254740992 \<longrightarrow> m' < 9007199254740992)"
      by simp
    with True show ?thesis by simp
  next
    case False
    with 1(4) have "m' = m" "s' = s" by (simp_all add: scaleUp.simps [of m s])
    with False 1(3) show ?thesis by simp
  qed
qed

lemma scaleDown_inv:
  "4503599627370496 \<le> m \<Longrightarrow> 0 < s \<Longrightarrow> scaleDown m s = (m', s') \<Longrightarrow>
     m' * s' = m * s \<and> 0 < s' \<and> 4503599627370496 \<le> m' \<and> m' < 9007199254740992"
proof (induction m s rule: scaleDown.induct)
  case (1 m s)
  show ?case
  proof (cases "9007199254740992 \<le> m")
    case True
    with 1(4) have e: "scaleDown (m / 2) (s * 2) = (m', s')"
      by (simp add: scaleDown.simps [of m s])
    from True have "4503599627370496 \<le> m / 2" by simp
    from 1(1) [OF True this _ e] 1(3)
    have "m' * s' = m / 2 * (s * 2) \<and> 0 < s' \<and> 4503599627370496 \<le> m' \<and> m' < 9007199254740992"
      by simp
    then show ?thesis by simp
  next
    case False
    with 1(4) have "m' = m" "s' = s" by (simp_all add: scaleDown.simps [of m s])
    with False 1(2) 1(3) show ?thesis by simp
  qed
qed

lemma roundHalfEven_near: "\<bar>real_of_int (roundHalfEven x) - x\<bar> \<le> 1 / 2"
  unfolding roundHalfEven_def Let_def by (simp; linarith)

text \<open>The relative error of one rounding is at most \<open>2\<^sup>-\<^sup>5\<^sup>3\<close>.\<close>

lemma fl_err: "\<bar>fl x - x\<bar> \<le> \<bar>x\<bar> / 9007199254740992"
proof (cases "x = 0")
  case True
  then show ?thesis by (simp add: fl_def)
next
  case False
  obtain m1 s1 where u: "scaleUp \<bar>x\<bar> 1 = (m1, s1)" by (cases "scaleUp \<bar>x\<bar> 1")
  obtain m s where d: "scaleDown m1 s1 = (m, s)" by (cases "scaleDown m1 s1")
  from False have "0 < \<bar>x\<bar>" by simp
  from scaleUp_inv [OF this _ u]
  have 1: "m1 * s1 = \<bar>x\<bar>" "0 < s1" "4503599627370496 \<le> m1" by simp_all
  from scaleDown_inv [OF 1(3) 1(2) d] 1(1)
  have 2: "m * s = \<bar>x\<bar>" "0 < s" "4503599627370496 \<le> m" by simp_all
  have f: "fl x = sgn x * (real_of_int (roundHalfEven m) * s)"
    using False u d by (simp add: fl_def)
  have "x = sgn x * (m * s)" using 2(1) by (simp add: sgn_mult_abs)
  then have "fl x - x = sgn x * ((real_of_int (roundHalfEven m) - m) * s)"
    unfolding f by (simp add: algebra_simps)
  then have "\<bar>fl x - x\<bar> = \<bar>real_of_int (roundHalfEven m) - m\<bar> * s"
    using False 2(2) by (simp add: abs_mult abs_sgn_eq)
  also have "\<dots> \<le> 1 / 2 * s"
    using roundHalfEven_near [of m] 2(2) by (intro mult_right_mono) simp_all
  also have "\<dots> \<le> \<bar>x\<bar> / 9007199254740992"
  proof -
    have "4503599627370496 * s \<le> m * s" using 2(2) 2(3) by (intro mult_right_mono) simp_all
    with 2(1) show ?thesis by simp
  qed
  finally show ?thesis .
qed

subsection \<open>The fields of the result\<close>

lemma sel_currentRank:
  "currentRank (computeAnalytics tz clock porData station allStations hydro)
     = rankOf (historicalAtDOWY tz (dateToDOWY tz (utcDate clock)) (groupByWY porData)) (currentSWE station)"
  by (simp add: computeAnalytics_def Let_def)

lemma sel_totalYears:
  "totalYears (computeAnalytics tz clock porData station allStations hydro)
     = length (historicalAtDOWY tz (dateToDOWY tz (utcDate clock)) (groupByWY porData))"
  by (simp add: computeAnalytics_def Let_def)

lemma sel_projectedPeak:
  "projectedPeak (computeAnalytics tz clock porData station allStations hydro) = projectPeak hydro"
  by (simp add: computeAnalytics_def Let_def)

lemma sel_monthlyClim:
  "monthlyClim (computeAnalytics tz clock porData station allStations hydro) = monthlyClimOf porData"
  by (simp add: computeAnalytics_def Let_def)

lemma sel_significant:
  "peakTrendSignificant (computeAnalytics tz clock porData station allStations hydro)
     \<longleftrightarrow> r2 (linearRegression (map (\<lambda>w. real_of_int (wy w)) (waterYears porData))
                                (map peakSWE (waterYears porData))) > 0.15
         \<and> length (waterYears porData) > 10"
  by (simp add: computeAnalytics_def Let_def waterYears_def)

lemma sel_waterYears:
  "sa_waterYears (computeAnalytics tz clock porData station allStations hydro) = waterYears porData"
  by (simp add: computeAnalytics_def Let_def waterYears_def)

lemma sel_peakTrendSlope:
  "peakTrendSlope (computeAnalytics tz clock porData station allStations hydro)
     = fmul (slope (linearRegression (map (\<lambda>w. real_of_int (wy w)) (waterYears porData))
                                     (map peakSWE (waterYears porData)))) 10"
  by (simp add: computeAnalytics_def Let_def waterYears_def)

subsection \<open>Days of the water year\<close>

text \<open>
  October 1st is day 1. January 10th is day 102 where the offset from UTC is the same on
  both days or larger in October, and day 101 where the clocks are one hour ahead in
  January: the difference of the two local midnights is then one hour short of 101
  days.
\<close>

lemma dateToDOWY_examples:
  "dateToDOWY utcZone (Date 2020 10 1) = 1"
  "dateToDOWY utcZone (Date 2021 1 10) = 102"
  "dateToDOWY westZone (Date 2021 1 10) = 102"
  "dateToDOWY southernZone (Date 2020 10 1) = 1"
  "dateToDOWY southernZone (Date 2021 1 10) = 101"
  by code_simp+

subsection \<open>The pool of historical values\<close>

lemma find_filter_conv: "find P xs = (case filter P xs of [] \<Rightarrow> None | x # rest \<Rightarrow> Some x)"
  by (induction xs) auto

lemma pooledValue_nonempty: "pooledValue tz today porData y = Some v \<Longrightarrow> wyDays porData y \<noteq> []"
  by (auto simp: pooledValue_def)

lemma pooledValue_in_series:
  assumes "pooledValue tz today porData y = Some v"
  shows "\<exists>d \<in> set porData. swe d = Some v \<and> \<bar>dateToDOWY tz (date d) - dateToDOWY tz today\<bar> \<le> 3"
proof -
  let ?P = "\<lambda>d. \<bar>dateToDOWY tz (date d) - dateToDOWY tz today\<bar> \<le> 3"
  from assms obtain d rest where f: "filter ?P (wyDays porData y) = d # rest" and v: "swe d = Some v"
    by (auto simp: pooledValue_def split: list.splits)
  have "d \<in> set (filter ?P (wyDays porData y))" unfolding f by simp
  then have "d \<in> set porData" "?P d" by (auto simp: wyDays_def)
  with v show ?thesis by blast
qed

lemma pool_entry:
  assumes "(k, ds) \<in> set (groupByWY porData)"
  shows "(case find (nearToday tz (dateToDOWY tz today)) ds of
            None \<Rightarrow> []
          | Some d \<Rightarrow> (case swe d of None \<Rightarrow> [] | Some v \<Rightarrow> [v]))
         = (case pooledValue tz today porData k of None \<Rightarrow> [] | Some v \<Rightarrow> [v])"
proof -
  have ds: "ds = wyDays porData k" using assms by (simp add: groupByWY_set)
  have near: "nearToday tz (dateToDOWY tz today) = (\<lambda>d. \<bar>dateToDOWY tz (date d) - dateToDOWY tz today\<bar> \<le> 3)"
    by (rule ext) (simp add: nearToday_def)
  show ?thesis
    unfolding ds near find_filter_conv pooledValue_def
    by (simp split: list.split)
qed

lemma count_concat:
  "length (filter P (concat (map (\<lambda>k. case h k of None \<Rightarrow> [] | Some v \<Rightarrow> [v]) ks)))
     = length (filter (\<lambda>k. \<exists>v. h k = Some v \<and> P v) ks)"
  by (induction ks) (auto split: option.splits)

lemma entriesWY_keys: "set (map fst (entriesWY (groupByWY porData))) = {k. wyDays porData k \<noteq> []}"
proof -
  have "set (map fst (entriesWY (groupByWY porData))) = fst ` set (groupByWY porData)"
    by (simp add: entriesWY_set)
  also have "\<dots> = {k. wyDays porData k \<noteq> []}"
  proof (rule set_eqI)
    fix k
    show "k \<in> fst ` set (groupByWY porData) \<longleftrightarrow> k \<in> {k. wyDays porData k \<noteq> []}"
    proof
      assume "k \<in> fst ` set (groupByWY porData)"
      then obtain ds where "(k, ds) \<in> set (groupByWY porData)" by auto
      then show "k \<in> {k. wyDays porData k \<noteq> []}" by (auto simp: groupByWY_set)
    next
      assume "k \<in> {k. wyDays porData k \<noteq> []}"
      then have "(k, wyDays porData k) \<in> set (groupByWY porData)" by (simp add: groupByWY_set)
      then show "k \<in> fst ` set (groupByWY porData)" by force
    qed
  qed
  finally show ?thesis .
qed

lemma pool_as_keys:
  "historicalAtDOWY tz (dateToDOWY tz today) (groupByWY porData)
     = sort (concat (map (\<lambda>k. case pooledValue tz today porData k of None \<Rightarrow> [] | Some v \<Rightarrow> [v])
                      (map fst (entriesWY (groupByWY porData)))))"
proof -
  have "map (\<lambda>(k, days). case find (nearToday tz (dateToDOWY tz today)) days of
                 None \<Rightarrow> []
               | Some d \<Rightarrow> (case swe d of None \<Rightarrow> [] | Some v \<Rightarrow> [v]))
          (entriesWY (groupByWY porData))
        = map (\<lambda>e. case pooledValue tz today porData (fst e) of None \<Rightarrow> [] | Some v \<Rightarrow> [v])
            (entriesWY (groupByWY porData))"
  proof (rule map_cong [OF refl])
    fix e assume "e \<in> set (entriesWY (groupByWY porData))"
    then have "(fst e, snd e) \<in> set (groupByWY porData)" by (simp add: entriesWY_set)
    from pool_entry [OF this, of tz today]
    show "(case e of (k, days) \<Rightarrow> case find (nearToday tz (dateToDOWY tz today)) days of
                 None \<Rightarrow> []
               | Some d \<Rightarrow> (case swe d of None \<Rightarrow> [] | Some v \<Rightarrow> [v]))
          = (case pooledValue tz today porData (fst e) of None \<Rightarrow> [] | Some v \<Rightarrow> [v])"
      by (simp add: case_prod_beta)
  qed
  then show ?thesis
    unfolding historicalAtDOWY_def by (simp only: map_map comp_def)
qed

lemma pool_count:
  "length (filter P (historicalAtDOWY tz (dateToDOWY tz today) (groupByWY porData)))
     = card {y. \<exists>v. pooledValue tz today porData y = Some v \<and> P v}"
proof -
  let ?ks = "map fst (entriesWY (groupByWY porData))"
  let ?Q = "\<lambda>k. \<exists>v. pooledValue tz today porData k = Some v \<and> P v"
  have d: "distinct ?ks"
    by (rule entriesWY_distinct) (rule groupByWY_distinct)
  have "length (filter P (historicalAtDOWY tz (dateToDOWY tz today) (groupByWY porData)))
          = length (filter ?Q ?ks)"
    unfolding pool_as_keys filter_sort length_sort by (rule count_concat)
  also have "\<dots> = card ({k. ?Q k} \<inter> set ?ks)"
    using d by (rule distinct_length_filter)
  also have "{k. ?Q k} \<inter> set ?ks = {k. ?Q k}"
    unfolding entriesWY_keys using pooledValue_nonempty by blast
  finally show ?thesis .
qed

subsection \<open>Current rank\<close>

text \<open>
  C4. \<open>totalYears\<close> is the number of water years that have a valid observation within
  three days of today's day of water year, each contributing the value of its first
  such observation to the pool, and \<open>currentRank\<close> is one more than the number of these
  water years whose pooled value is strictly below the current value. A current value
  above every pooled value ranks \<open>totalYears + 1\<close>; a current value not above any
  pooled value ranks 1. A missing \<^verbatim>\<open>station.swe\<close> is ranked as 0.
\<close>

theorem C4_current_rank:
  "let A = computeAnalytics tz clock porData station allStations hydro;
       pooled = pooledValue tz (utcDate clock) porData;
       cur = (case st_swe station of None \<Rightarrow> 0 | Some v \<Rightarrow> v)
   in totalYears A = card {y. pooled y \<noteq> None}
      \<and> currentRank A = card {y. \<exists>v. pooled y = Some v \<and> v < cur} + 1
      \<and> ((\<forall>y v. pooled y = Some v \<longrightarrow> v < cur) \<longrightarrow> currentRank A = totalYears A + 1)
      \<and> ((\<forall>y v. pooled y = Some v \<longrightarrow> cur \<le> v) \<longrightarrow> currentRank A = 1)"
proof -
  define pooled where "pooled = pooledValue tz (utcDate clock) porData"
  define cur where "cur = (case st_swe station of None \<Rightarrow> (0::real) | Some v \<Rightarrow> v)"
  define A where "A = computeAnalytics tz clock porData station allStations hydro"
  have total: "totalYears A = card {y. pooled y \<noteq> None}"
  proof -
    have "totalYears A = length (filter (\<lambda>v. True)
            (historicalAtDOWY tz (dateToDOWY tz (utcDate clock)) (groupByWY porData)))"
      by (simp add: A_def sel_totalYears)
    also have "\<dots> = card {y. \<exists>v. pooled y = Some v \<and> True}"
      unfolding pooled_def by (rule pool_count)
    also have "{y. \<exists>v. pooled y = Some v \<and> True} = {y. pooled y \<noteq> None}"
      by auto
    finally show ?thesis .
  qed
  have rank: "currentRank A = card {y. \<exists>v. pooled y = Some v \<and> v < cur} + 1"
    unfolding A_def sel_currentRank rankOf_def currentSWE_def cur_def [symmetric] pooled_def
    by (simp only: pool_count)
  have hi: "currentRank A = totalYears A + 1" if "\<forall>y v. pooled y = Some v \<longrightarrow> v < cur"
  proof -
    from that have "{y. \<exists>v. pooled y = Some v \<and> v < cur} = {y. pooled y \<noteq> None}"
      by auto
    with rank total show ?thesis by simp
  qed
  have lo: "currentRank A = 1" if "\<forall>y v. pooled y = Some v \<longrightarrow> cur \<le> v"
  proof -
    from that have "{y. \<exists>v. pooled y = Some v \<and> v < cur} = {}"
      by fastforce
    with rank show ?thesis by simp
  qed
  from total rank hi lo show ?thesis
    unfolding Let_def A_def pooled_def cur_def by blast
qed

lemma porPool_pool:
  "historicalAtDOWY utcZone (dateToDOWY utcZone (utcDate clockJan)) (groupByWY porPool) = [2, 4.25, 9]"
  by code_simp

lemma porPool_near:
  "\<forall>d \<in> set porPool. \<bar>dateToDOWY utcZone (date d) - dateToDOWY utcZone (utcDate clockJan)\<bar> \<le> 3 \<longrightarrow>
     (case swe d of None \<Rightarrow> True | Some v \<Rightarrow> 0 \<le> v \<and> v < 30)"
  by code_simp

theorem C4_rank_example:
  "dateToDOWY utcZone (utcDate clockJan) = 102
   \<and> map (\<lambda>d. dateToDOWY utcZone (date d)) porPool = [62, 101, 103, 104, 102, 161, 102]
   \<and> map (pooledValue utcZone (utcDate clockJan) porPool) [2016, 2017, 2018, 2019, 2020]
       = [None, None, Some 2, Some 4.25, Some 9]
   \<and> card {y. pooledValue utcZone (utcDate clockJan) porPool y \<noteq> None} = 3
   \<and> totalYears (computeAnalytics utcZone clockJan porPool stationA [] []) = 3
   \<and> st_swe stationA = Some 30
   \<and> currentRank (computeAnalytics utcZone clockJan porPool stationA [] []) = 4
   \<and> st_swe stationMissing = None
   \<and> currentRank (computeAnalytics utcZone clockJan porPool stationMissing [] []) = 1"
proof -
  let ?pooled = "pooledValue utcZone (utcDate clockJan) porPool"
  have t: "dateToDOWY utcZone (utcDate clockJan) = 102" by code_simp
  have ds: "map (\<lambda>d. dateToDOWY utcZone (date d)) porPool = [62, 101, 103, 104, 102, 161, 102]"
    by code_simp
  have ps: "map ?pooled [2016, 2017, 2018, 2019, 2020] = [None, None, Some 2, Some 4.25, Some 9]"
    by code_simp
  have a: "st_swe stationA = Some 30" "st_swe stationMissing = None"
    by (simp_all add: stationA_def stationMissing_def)
  have n: "totalYears (computeAnalytics utcZone clockJan porPool stationA [] []) = 3"
    by (simp add: sel_totalYears porPool_pool)
  have bound: "0 \<le> v \<and> v < 30" if "?pooled y = Some v" for y v
  proof -
    from pooledValue_in_series [OF that] obtain d where "d \<in> set porPool" "swe d = Some v"
      "\<bar>dateToDOWY utcZone (date d) - dateToDOWY utcZone (utcDate clockJan)\<bar> \<le> 3" by blast
    with porPool_near show ?thesis by fastforce
  qed
  note c1 = C4_current_rank [of utcZone clockJan porPool stationA "[]" "[]", unfolded Let_def a option.case]
  note c2 = C4_current_rank [of utcZone clockJan porPool stationMissing "[]" "[]", unfolded Let_def a option.case]
  from bound have h1: "\<forall>y v. ?pooled y = Some v \<longrightarrow> v < 30" by blast
  from bound have h2: "\<forall>y v. ?pooled y = Some v \<longrightarrow> 0 \<le> v" by blast
  from c1 n have card: "card {y. ?pooled y \<noteq> None} = 3" by simp
  from c1 h1 n have r1: "currentRank (computeAnalytics utcZone clockJan porPool stationA [] []) = 4"
    by simp
  from c2 h2 have r2: "currentRank (computeAnalytics utcZone clockJan porPool stationMissing [] []) = 1"
    by blast
  from t ds ps card n a r1 r2 show ?thesis by blast
qed

subsection \<open>Peak projection\<close>

lemma projectPeak_cases:
  "projectPeak hydro =
     (if length hydro < 6 then None
      else case (h_swe (last hydro), h_median (last hydro)) of
             (Some cv, Some cm) \<Rightarrow>
               if cv = 0 \<or> cm \<le> 0 then None
               else if Max (set (List.map_filter h_median hydro)) \<le> cm then None
               else Some (fdiv (real_of_int (jsRound (fmul (fmul (fdiv cv cm)
                            (Max (set (List.map_filter h_median hydro)))) 10))) 10)
           | _ \<Rightarrow> None)"
proof (cases "length hydro < 6")
  case True
  then show ?thesis by (simp add: projectPeak_def)
next
  case False
  then have ne: "hydro \<noteq> []" and len: "length hydro > 5" by auto
  show ?thesis
  proof (cases "h_median (last hydro)")
    case None
    then show ?thesis
      using False by (simp add: projectPeak_def Let_def split: option.splits)
  next
    case (Some cm)
    have "last hydro \<in> set hydro" using ne by simp
    with Some have "cm \<in> set (List.map_filter h_median hydro)"
      by (auto simp: set_map_filter')
    then have mem: "List.map_filter h_median hydro \<noteq> []" by auto
    show ?thesis
    proof (cases "h_swe (last hydro)")
      case None
      then show ?thesis
        using False Some by (simp add: projectPeak_def Let_def)
    next
      case (Some cv)
      define M where "M = Max (set (List.map_filter h_median hydro))"
      have "projectPeak hydro =
              (if cm \<noteq> 0 \<and> cv \<noteq> 0 \<and> cm > 0
               then (if M > cm then Some (fdiv (real_of_int (jsRound (fmul (fmul (fdiv cv cm) M) 10))) 10)
                     else None)
               else None)"
        using Some \<open>h_median (last hydro) = Some cm\<close> len mem
        unfolding projectPeak_def Let_def M_def by simp
      also have "\<dots> = (if cv = 0 \<or> cm \<le> 0 then None
                        else if M \<le> cm then None
                        else Some (fdiv (real_of_int (jsRound (fmul (fmul (fdiv cv cm) M) 10))) 10))"
        by auto
      finally show ?thesis
        using Some \<open>h_median (last hydro) = Some cm\<close> False
        unfolding M_def by simp
    qed
  qed
qed

text \<open>
  C5 (as amended). The projection is \<^verbatim>\<open>null\<close> when the current-season series has fewer
  than 6 entries; \<^verbatim>\<open>null\<close> when the latest value or the latest median is missing;
  \<^verbatim>\<open>null\<close> when the latest value is 0 or the latest median is at most 0; \<^verbatim>\<open>null\<close>
  when the largest median of the series is at most the latest median; and otherwise
  the result of \<^verbatim>\<open>Math.round(ratio * peakMedian * 10) / 10\<close> in double arithmetic,
  where \<open>ratio\<close> is the rounded quotient of the latest value by the latest median and
  \<open>peakMedian\<close> the largest median: a whole number of tenths, as the division by 10
  gives it.
\<close>

theorem C5_projected_peak:
  "projectedPeak (computeAnalytics tz clock porData station allStations hydro) =
     (if length hydro < 6 then None
      else case (h_swe (last hydro), h_median (last hydro)) of
             (Some currentValue, Some currentMedian) \<Rightarrow>
               if currentValue = 0 \<or> currentMedian \<le> 0 then None
               else if Max (set (List.map_filter h_median hydro)) \<le> currentMedian then None
               else Some (fdiv (real_of_int (jsRound (fmul (fmul (fdiv currentValue currentMedian)
                            (Max (set (List.map_filter h_median hydro)))) 10))) 10)
           | _ \<Rightarrow> None)"
  unfolding sel_projectedPeak by (rule projectPeak_cases)

text \<open>
  With the latest pair (0.3, 0.2) and the largest median 0.3 the double product
  \<open>ratio * peakMedian * 10\<close> is 4.499999999999999 and the projection is 0.4; with the
  latest pair (4, 8) and the largest median 10 it is 5.
\<close>

theorem C5_projection_example:
  "length hydroTenths = 6
   \<and> h_swe (last hydroTenths) = Some (fl (3 / 10))
   \<and> h_median (last hydroTenths) = Some (fl (2 / 10))
   \<and> Max (set (List.map_filter h_median hydroTenths)) = fl (3 / 10)
   \<and> fmul (fmul (fdiv (fl (3 / 10)) (fl (2 / 10))) (fl (3 / 10))) 10 = 5066549580791807 / 1125899906842624
   \<and> projectedPeak (computeAnalytics utcZone clockJan porJan stationA [] hydroTenths) = Some (fl (4 / 10))
   \<and> projectedPeak (computeAnalytics utcZone clockJan porJan stationA [] hydroHalf) = Some 5"
proof -
  have a: "length hydroTenths = 6" "h_swe (last hydroTenths) = Some (fl (3 / 10))"
    "h_median (last hydroTenths) = Some (fl (2 / 10))"
    by (simp_all add: hydroTenths_def hydroPoint_def)
  have m: "Max (set (List.map_filter h_median hydroTenths)) = fl (3 / 10)"
    by (simp add: hydroTenths_def hydroPoint_def List.map_filter_simps tenths_doubles)
  have p: "fmul (fmul (fdiv (fl (3 / 10)) (fl (2 / 10))) (fl (3 / 10))) 10 = 5066549580791807 / 1125899906842624"
    by (simp add: fl_lit)
  have 1: "projectedPeak (computeAnalytics utcZone clockJan porJan stationA [] hydroTenths) = Some (fl (4 / 10))"
    using C5_projected_peak [of utcZone clockJan porJan stationA "[]" hydroTenths]
    by (simp add: hydroTenths_def hydroPoint_def List.map_filter_simps jsRound_def fl_lit)
  have 2: "projectedPeak (computeAnalytics utcZone clockJan porJan stationA [] hydroHalf) = Some 5"
    using C5_projected_peak [of utcZone clockJan porJan stationA "[]" hydroHalf]
    by (simp add: hydroHalf_def hydroPoint_def List.map_filter_simps jsRound_def fl_lit)
  from a m p 1 2 show ?thesis by blast
qed

text \<open>
  The claim as stated (the projection equals the ratio times the peak median) fails:
  with the latest pair (1, 3) and the peak median 10 the code returns 3.3, while the
  ratio times the peak median is 3.333333333333333 in double arithmetic and 10/3
  exactly.
\<close>

theorem C5_projection_is_rounded:
  "length hydroRounded = 6
   \<and> h_swe (last hydroRounded) = Some 1
   \<and> h_median (last hydroRounded) = Some 3
   \<and> Max (set (List.map_filter h_median hydroRounded)) = 10
   \<and> projectedPeak (computeAnalytics utcZone clockJan porJan stationA [] hydroRounded)
       = Some (3715469692580659 / 1125899906842624)
   \<and> fmul (fdiv 1 3) 10 = 3752999689475413 / 1125899906842624
   \<and> projectedPeak (computeAnalytics utcZone clockJan porJan stationA [] hydroRounded)
       \<noteq> Some (fmul (fdiv 1 3) 10)
   \<and> (1 / 3 * 10 :: real) \<noteq> 3715469692580659 / 1125899906842624"
proof -
  have a: "length hydroRounded = 6" "h_swe (last hydroRounded) = Some 1"
    "h_median (last hydroRounded) = Some 3" "Max (set (List.map_filter h_median hydroRounded)) = 10"
    by (simp_all add: hydroRounded_def hydroPoint_def List.map_filter_simps)
  have "projectPeak hydroRounded = Some (3715469692580659 / 1125899906842624)"
    unfolding projectPeak_cases
    by (simp add: hydroRounded_def hydroPoint_def List.map_filter_simps jsRound_def fl_lit)
  moreover have "fmul (fdiv 1 3) 10 = 3752999689475413 / 1125899906842624"
    by (simp add: fl_lit)
  ultimately show ?thesis
    using a by (simp add: sel_projectedPeak)
qed

text \<open>
  C10. The projection reads the value and the median of the last entry of the
  current-season series only: when that entry has a missing or zero value, or a
  missing or zero median, the projection is \<^verbatim>\<open>null\<close>, whatever the earlier entries
  hold and however many there are.
\<close>

theorem C10_only_last_entry_consulted:
  assumes "h_swe (last hydro) = None \<or> h_swe (last hydro) = Some 0
         \<or> h_median (last hydro) = None \<or> h_median (last hydro) = Some 0"
  shows "projectedPeak (computeAnalytics tz clock porData station allStations hydro) = None"
  using assms by (auto simp: sel_projectedPeak projectPeak_def Let_def split: option.splits)

theorem C10_last_entry_null_example:
  "length hydroLastNull = 6
   \<and> map h_swe (butlast hydroLastNull) = [Some 2, Some 2, Some 2, Some 1, Some 1]
   \<and> map h_median (butlast hydroLastNull) = [Some 10, Some 8, Some 6, Some 5, Some 4]
   \<and> h_swe (last hydroLastNull) = None
   \<and> projectedPeak (computeAnalytics utcZone clockJan porJan stationA [] hydroLastNull) = None"
proof -
  have a: "h_swe (last hydroLastNull) = None" by code_simp
  have b: "length hydroLastNull = 6" by code_simp
  have c: "map h_swe (butlast hydroLastNull) = [Some 2, Some 2, Some 2, Some 1, Some 1]" by code_simp
  have d: "map h_median (butlast hydroLastNull) = [Some 10, Some 8, Some 6, Some 5, Some 4]" by code_simp
  from a have "h_swe (last hydroLastNull) = None \<or> h_swe (last hydroLastNull) = Some 0
         \<or> h_median (last hydroLastNull) = None \<or> h_median (last hydroLastNull) = Some 0"
    by (rule disjI1)
  from C10_only_last_entry_consulted [OF this, of utcZone clockJan porJan stationA "[]"] a b c d
  show ?thesis by blast
qed

subsection \<open>Linear regression\<close>

lemma linearRegression_short:
  "length xs < 2 \<Longrightarrow> linearRegression xs ys = \<lparr> slope = 0, intercept = 0, r2 = 0 \<rparr>"
  by (simp add: linearRegression_def)

lemma linearRegression_zero_denom:
  assumes "2 \<le> length xs"
    and "fsub (fmul (real (length xs)) (foldl (\<lambda>a x. fadd a (fmul x x)) 0 xs))
              (fmul (foldl (\<lambda>a b. fadd a b) 0 xs) (foldl (\<lambda>a b. fadd a b) 0 xs)) = 0"
  shows "linearRegression xs ys
           = \<lparr> slope = 0, intercept = fdiv (foldl (\<lambda>a b. fadd a b) 0 ys) (real (length xs)), r2 = 0 \<rparr>"
  using assms by (simp add: linearRegression_def Let_def)

lemma linearRegression_ssTot:
  assumes "foldl (\<lambda>a y. fadd a (fmul (fsub y (fdiv (foldl (\<lambda>a b. fadd a b) 0 ys) (real (length xs))))
                                       (fsub y (fdiv (foldl (\<lambda>a b. fadd a b) 0 ys) (real (length xs))))))
             0 ys \<le> 0"
  shows "r2 (linearRegression xs ys) = 0"
  using assms by (simp add: linearRegression_def Let_def)

lemma ssTot_constant:
  "\<forall>y \<in> set ys. y = c \<Longrightarrow> foldl (\<lambda>a y. fadd a (fmul (fsub y c) (fsub y c))) 0 ys = 0"
  by (induction ys) (simp_all add: fl_ops)

lemma linearRegression_constant_ys:
  assumes "\<forall>y \<in> set ys. y = c" and "fdiv (foldl (\<lambda>a b. fadd a b) 0 ys) (real (length xs)) = c"
  shows "r2 (linearRegression xs ys) = 0"
  by (rule linearRegression_ssTot) (simp add: assms(2) ssTot_constant [OF assms(1)])

text \<open>
  C6 (as amended). On arrays of equal length: with fewer than two points the fit is
  \<open>(0, 0, 0)\<close>; with at least two points and a denominator \<open>n \<Sigma>x\<^sup>2 - (\<Sigma>x)\<^sup>2\<close> that is
  exactly 0 as the code computes it in double arithmetic, the fit is \<open>(0, \<Sigma>y / n, 0)\<close>;
  and whenever the total sum of squares, as the code computes it, is not positive,
  \<open>r2\<close> is 0, which is the case for constant \<open>ys\<close> whose computed mean is that constant.
\<close>

theorem C6_regression_degenerate_cases:
  assumes "length xs = length ys"
  shows "(length xs < 2 \<longrightarrow> linearRegression xs ys = \<lparr> slope = 0, intercept = 0, r2 = 0 \<rparr>)
       \<and> (2 \<le> length xs
            \<and> fsub (fmul (real (length xs)) (foldl (\<lambda>a x. fadd a (fmul x x)) 0 xs))
                    (fmul (foldl (\<lambda>a b. fadd a b) 0 xs) (foldl (\<lambda>a b. fadd a b) 0 xs)) = 0 \<longrightarrow>
            linearRegression xs ys
              = \<lparr> slope = 0, intercept = fdiv (foldl (\<lambda>a b. fadd a b) 0 ys) (real (length ys)), r2 = 0 \<rparr>)
       \<and> (foldl (\<lambda>a y. fadd a (fmul (fsub y (fdiv (foldl (\<lambda>a b. fadd a b) 0 ys) (real (length ys))))
                                       (fsub y (fdiv (foldl (\<lambda>a b. fadd a b) 0 ys) (real (length ys))))))
             0 ys \<le> 0 \<longrightarrow>
            r2 (linearRegression xs ys) = 0)
       \<and> ((\<forall>y \<in> set ys. y = c) \<and> fdiv (foldl (\<lambda>a b. fadd a b) 0 ys) (real (length ys)) = c \<longrightarrow>
            r2 (linearRegression xs ys) = 0)"
  using linearRegression_short [of xs ys] linearRegression_zero_denom [of xs ys]
    linearRegression_ssTot [of ys xs] linearRegression_constant_ys [of ys c xs]
  unfolding assms by blast

theorem C6_regression_examples:
  "linearRegression [5] [10] = \<lparr> slope = 0, intercept = 0, r2 = 0 \<rparr>
   \<and> fsub (fmul (real (length [2, 2, 2 :: real])) (foldl (\<lambda>a x. fadd a (fmul x x)) 0 [2, 2, 2]))
           (fmul (foldl (\<lambda>a b. fadd a b) 0 [2, 2, 2]) (foldl (\<lambda>a b. fadd a b) 0 [2, 2, 2])) = 0
   \<and> linearRegression [2, 2, 2] [1, 2, 6] = \<lparr> slope = 0, intercept = 3, r2 = 0 \<rparr>
   \<and> fdiv (foldl (\<lambda>a b. fadd a b) 0 [4, 4, 4]) (real (length [4, 4, 4 :: real])) = 4
   \<and> r2 (linearRegression [1, 2, 3] [4, 4, 4]) = 0
   \<and> linearRegression [1, 3, 1, 3] [1, 2, 6, 3]
       = \<lparr> slope = - 1 / 2, intercept = 4, r2 = 321685687669321 / 4503599627370496 \<rparr>"
proof -
  have a: "length [5::real] = length [10::real]" "length [5::real] < 2" by simp_all
  have b: "length [2, 2, 2::real] = length [1, 2, 6::real]" "2 \<le> length [2, 2, 2::real]" by simp_all
  have d: "fsub (fmul (real (length [2, 2, 2 :: real])) (foldl (\<lambda>a x. fadd a (fmul x x)) 0 [2, 2, 2]))
           (fmul (foldl (\<lambda>a b. fadd a b) 0 [2, 2, 2]) (foldl (\<lambda>a b. fadd a b) 0 [2, 2, 2])) = 0"
    by (simp add: fl_lit)
  have m: "fdiv (foldl (\<lambda>a b. fadd a b) 0 [1, 2, 6]) (real (length [1, 2, 6 :: real])) = 3"
    by (simp add: fl_lit)
  have c: "length [1, 2, 3::real] = length [4, 4, 4::real]" "\<forall>y \<in> set [4, 4, 4::real]. y = 4" by simp_all
  have k: "fdiv (foldl (\<lambda>a b. fadd a b) 0 [4, 4, 4]) (real (length [4, 4, 4 :: real])) = 4"
    by (simp add: fl_lit)
  from C6_regression_degenerate_cases [OF a(1)] a(2)
  have 1: "linearRegression [5] [10] = \<lparr> slope = 0, intercept = 0, r2 = 0 \<rparr>" by blast
  from C6_regression_degenerate_cases [OF b(1)] b(2) d
  have "linearRegression [2, 2, 2] [1, 2, 6]
          = \<lparr> slope = 0, intercept = fdiv (foldl (\<lambda>a b. fadd a b) 0 [1, 2, 6]) (real (length [1, 2, 6 :: real])),
              r2 = 0 \<rparr>" by blast
  then have 2: "linearRegression [2, 2, 2] [1, 2, 6] = \<lparr> slope = 0, intercept = 3, r2 = 0 \<rparr>"
    unfolding m .
  from C6_regression_degenerate_cases [OF c(1), of 4] c(2) k
  have 3: "r2 (linearRegression [1, 2, 3] [4, 4, 4]) = 0" by blast
  have 4: "linearRegression [1, 3, 1, 3] [1, 2, 6, 3]
       = \<lparr> slope = - 1 / 2, intercept = 4, r2 = 321685687669321 / 4503599627370496 \<rparr>"
    by (simp add: linearRegression_def Let_def fl_lit)
  from 1 d 2 k 3 4 show ?thesis by blast
qed

text \<open>
  The claim as stated fails in double arithmetic. Three points with the constant
  value 0.1 at the years 1985, 1986, 1987 have the computed mean 0.10000000000000002,
  a computed total sum of squares of about 5.8e-34, which is positive, and an \<open>r2\<close> of
  about -4972240.67. Three points with the identical \<open>x\<close> 0.7 have the computed
  denominator \<open>2^-50\<close>, and the fit has the slope 2 and not the mean of \<open>ys\<close> as
  intercept.
\<close>

theorem C6_constant_inputs_not_degenerate:
  "r2 (linearRegression [1985, 1986, 1987] [fl (1 / 10), fl (1 / 10), fl (1 / 10)])
     = - 5338902762793643 / 1073741824
   \<and> linearRegression [fl (7 / 10), fl (7 / 10), fl (7 / 10)] [2, 1, 4]
       = \<lparr> slope = 2, intercept = 262709978263279 / 281474976710656, r2 = 0 \<rparr>"
proof -
  have "r2 (linearRegression [1985, 1986, 1987] [fl (1 / 10), fl (1 / 10), fl (1 / 10)])
     = - 5338902762793643 / 1073741824"
    by (simp add: linearRegression_def Let_def fl_lit)
  moreover have "linearRegression [fl (7 / 10), fl (7 / 10), fl (7 / 10)] [2, 1, 4]
       = \<lparr> slope = 2, intercept = 262709978263279 / 281474976710656, r2 = 0 \<rparr>"
    by (simp add: linearRegression_def Let_def fl_lit)
  ultimately show ?thesis by blast
qed

subsection \<open>Significance of the peak trend\<close>

text \<open>
  C7. The peak trend is flagged significant exactly when the \<open>r2\<close> of the regression of
  peak value on water year exceeds 0.15 and more than 10 water years are summarised.
  The summarised water years are those with more than 60 valid observations, so a
  series with three such years is never flagged, whatever its slope.
\<close>

theorem C7_trend_significance:
  "let A = computeAnalytics tz clock porData station allStations hydro;
       ws = sa_waterYears A;
       peakReg = linearRegression (map (\<lambda>w. real_of_int (wy w)) ws) (map peakSWE ws)
   in (peakTrendSignificant A \<longleftrightarrow> r2 peakReg > 0.15 \<and> length ws > 10)
      \<and> ws = waterYears porData
      \<and> length ws = card {y. 60 < length (wyDays porData y)}
      \<and> (card {y. 60 < length (wyDays porData y)} = 3 \<longrightarrow> length ws = 3 \<and> \<not> peakTrendSignificant A)"
  by (simp add: Let_def sel_waterYears sel_significant waterYears_length)

lemma regression_three_years:
  "linearRegression [2019, 2020, 2021] [10, 50, 90] = \<lparr> slope = 40, intercept = - 80750, r2 = 1 \<rparr>"
  by (simp add: linearRegression_def Let_def fl_lit)

theorem C7_three_years_example:
  "card {y. 60 < length (wyDays por3 y)} = 3
   \<and> length (sa_waterYears (computeAnalytics utcZone clockJan por3 stationA [] [])) = 3
   \<and> peakTrendSlope (computeAnalytics utcZone clockJan por3 stationA [] []) = 400
   \<and> r2 (linearRegression [2019, 2020, 2021] [10, 50, 90]) = 1
   \<and> \<not> peakTrendSignificant (computeAnalytics utcZone clockJan por3 stationA [] [])"
proof -
  have n: "length (waterYears por3) = 3" by (simp add: por3_summaries)
  then have c: "card {y. 60 < length (wyDays por3 y)} = 3"
    by (simp add: waterYears_length)
  have s: "peakTrendSlope (computeAnalytics utcZone clockJan por3 stationA [] []) = 400"
    by (simp add: sel_peakTrendSlope por3_summaries regression_three_years fl_lit)
  have r: "r2 (linearRegression [2019, 2020, 2021] [10, 50, 90]) = 1"
    by (simp add: regression_three_years)
  from C7_trend_significance [of utcZone clockJan por3 stationA "[]" "[]", unfolded Let_def] c
  have "length (sa_waterYears (computeAnalytics utcZone clockJan por3 stationA [] [])) = 3
        \<and> \<not> peakTrendSignificant (computeAnalytics utcZone clockJan por3 stationA [] [])"
    by blast
  with c s r show ?thesis by blast
qed

subsection \<open>Dependence on the wall clock\<close>




subsection \<open>Rounding\<close>

lemma jsRound_bounds: "real_of_int (jsRound x) \<le> x + 1 / 2" "x - 1 / 2 < real_of_int (jsRound x)"
  unfolding jsRound_def by linarith+

lemma jsRound_near: "\<bar>real_of_int (jsRound x) - x\<bar> \<le> 1 / 2"
  using jsRound_bounds [of x] by linarith

lemma round1_tenths: "\<exists>k::int. round1 x = fdiv (real_of_int k) 10 \<and> \<bar>real_of_int k - fmul x 10\<bar> \<le> 1 / 2"
  unfolding round1_def using jsRound_near by blast

lemma round1_close: "\<bar>round1 v - v\<bar> \<le> 1 / 20 + (\<bar>v\<bar> + 1) / 2251799813685248"
proof -
  define w where "w = fmul v 10"
  define k where "k = real_of_int (jsRound w)"
  define e1 where "e1 = \<bar>w - v * 10\<bar>"
  define e2 where "e2 = \<bar>k - w\<bar>"
  define e3 where "e3 = \<bar>round1 v - k / 10\<bar>"
  define A where "A = \<bar>v\<bar>"
  define K where "K = \<bar>k\<bar>"
  have "\<bar>w - v * 10\<bar> \<le> \<bar>v * 10\<bar> / 9007199254740992"
    unfolding w_def fmul_def by (rule fl_err)
  then have 1: "e1 \<le> 10 * A / 9007199254740992" by (simp add: e1_def A_def)
  have 2: "e2 \<le> 1 / 2" unfolding e2_def k_def by (rule jsRound_near)
  have "\<bar>round1 v - k / 10\<bar> \<le> \<bar>k / 10\<bar> / 9007199254740992"
    unfolding round1_def k_def w_def fdiv_def by (rule fl_err)
  then have 3: "e3 \<le> K / 10 / 9007199254740992" by (simp add: e3_def K_def)
  have 4: "K \<le> e2 + e1 + 10 * A" unfolding K_def e1_def e2_def A_def by linarith
  have tri: "\<bar>a + b + c\<bar> \<le> \<bar>a\<bar> + \<bar>b\<bar> + \<bar>c\<bar>" for a b c :: real by linarith
  have "round1 v - v = (round1 v - k / 10) + (k - w) / 10 + (w - v * 10) / 10"
    by (simp add: field_simps)
  then have "\<bar>round1 v - v\<bar> \<le> \<bar>round1 v - k / 10\<bar> + \<bar>(k - w) / 10\<bar> + \<bar>(w - v * 10) / 10\<bar>"
    using tri [of "round1 v - k / 10" "(k - w) / 10" "(w - v * 10) / 10"] by simp
  then have 5: "\<bar>round1 v - v\<bar> \<le> e3 + e2 / 10 + e1 / 10"
    unfolding e1_def e2_def e3_def abs_divide by simp
  have 6: "0 \<le> A" by (simp add: A_def)
  have "e3 + e2 / 10 + e1 / 10 \<le> 1 / 20 + (A + 1) / 2251799813685248"
    using 1 2 3 4 6 by argo
  with 5 show ?thesis unfolding A_def by simp
qed

text \<open>
  The bound \<open>1/20\<close> alone does not hold in double arithmetic: the double nearest to
  0.05 is rounded to the double nearest to 0.1, and their difference exceeds 0.05.
\<close>

lemma round1_twentieth:
  "round1 (fl (1 / 20)) = fl (1 / 10)" "1 / 20 < fl (1 / 10) - fl (1 / 20)"
  by (simp_all add: round1_def jsRound_def fl_lit fl_up [where x = "1 / numeral b" and k = 57 for b])

text \<open>
  C9 (as amended). \<^verbatim>\<open>computeAnalytics\<close> rounds inside the computation: the average,
  minimum and maximum of each of the nine monthly climatology entries and the
  projected peak are returned as \<^verbatim>\<open>Math.round(x * 10) / 10\<close>, computed in double
  arithmetic; each is the double quotient by 10 of a whole number. For a month with
  values, the three fields are the roundings of the double mean, the minimum and the
  maximum of the month's values, and each is within 0.05 of the value it rounds, up to
  the relative error \<open>2\<^sup>-\<^sup>5\<^sup>1\<close> of the double operations.
\<close>

theorem C9_rounding_inside_engine:
  "let A = computeAnalytics tz clock porData station allStations hydro in
   length (monthlyClim A) = 9
   \<and> (\<forall>i < 9.
        let e = monthlyClim A ! i; vals = monthlyBucket porData (climMonths ! i);
            mean = fdiv (foldl (\<lambda>a b. fadd a b) 0 vals) (real (length vals)) in
          (\<exists>k::int. c_avg e = fdiv (real_of_int k) 10)
          \<and> (\<exists>k::int. c_min e = fdiv (real_of_int k) 10)
          \<and> (\<exists>k::int. c_max e = fdiv (real_of_int k) 10)
          \<and> (vals \<noteq> [] \<longrightarrow>
                c_avg e = fdiv (real_of_int (jsRound (fmul mean 10))) 10
              \<and> c_min e = fdiv (real_of_int (jsRound (fmul (Min (set vals)) 10))) 10
              \<and> c_max e = fdiv (real_of_int (jsRound (fmul (Max (set vals)) 10))) 10
              \<and> \<bar>c_avg e - mean\<bar> \<le> 1 / 20 + (\<bar>mean\<bar> + 1) / 2251799813685248
              \<and> \<bar>c_min e - Min (set vals)\<bar> \<le> 1 / 20 + (\<bar>Min (set vals)\<bar> + 1) / 2251799813685248
              \<and> \<bar>c_max e - Max (set vals)\<bar> \<le> 1 / 20 + (\<bar>Max (set vals)\<bar> + 1) / 2251799813685248))
   \<and> (\<forall>p. projectedPeak A = Some p \<longrightarrow> (\<exists>k::int. p = fdiv (real_of_int k) 10))"
proof -
  have len: "length (monthlyClimOf porData) = 9"
    by (simp add: monthlyClimOf_def climMonths_def)
  have nth: "monthlyClimOf porData ! i = climOf porData (climMonths ! i)" if "i < 9" for i
  proof -
    have "length climMonths = 9" by (simp add: climMonths_def)
    with that have "i < length climMonths" by simp
    then show ?thesis unfolding monthlyClimOf_def by (rule nth_map)
  qed
  have proj: "\<exists>k::int. p = fdiv (real_of_int k) 10" if "projectPeak hydro = Some p" for p
  proof -
    have "projectPeak hydro = None \<or> (\<exists>k::int. projectPeak hydro = Some (fdiv (real_of_int k) 10))"
      unfolding projectPeak_cases by (auto split: option.splits)
    with that show ?thesis by auto
  qed
  have ent: "(\<exists>k::int. c_avg (climOf porData mo) = fdiv (real_of_int k) 10)
          \<and> (\<exists>k::int. c_min (climOf porData mo) = fdiv (real_of_int k) 10)
          \<and> (\<exists>k::int. c_max (climOf porData mo) = fdiv (real_of_int k) 10)
          \<and> (vals \<noteq> [] \<longrightarrow>
                c_avg (climOf porData mo) = fdiv (real_of_int (jsRound (fmul av 10))) 10
              \<and> c_min (climOf porData mo) = fdiv (real_of_int (jsRound (fmul (Min (set vals)) 10))) 10
              \<and> c_max (climOf porData mo) = fdiv (real_of_int (jsRound (fmul (Max (set vals)) 10))) 10
              \<and> \<bar>c_avg (climOf porData mo) - av\<bar> \<le> 1 / 20 + (\<bar>av\<bar> + 1) / 2251799813685248
              \<and> \<bar>c_min (climOf porData mo) - Min (set vals)\<bar> \<le> 1 / 20 + (\<bar>Min (set vals)\<bar> + 1) / 2251799813685248
              \<and> \<bar>c_max (climOf porData mo) - Max (set vals)\<bar> \<le> 1 / 20 + (\<bar>Max (set vals)\<bar> + 1) / 2251799813685248)"
    if vals: "vals = monthlyBucket porData mo"
      and av: "av = fdiv (foldl (\<lambda>a b. fadd a b) 0 vals) (real (length vals))" for mo vals av
  proof -
    define mn where "mn = Min (set vals)"
    define mx where "mx = Max (set vals)"
    have e: "climOf porData mo =
      \<lparr> c_month = MONTHS ! mo,
        c_avg = round1 (if length vals > 0 then av else 0),
        c_min = round1 (if length vals > 0 then mn else 0),
        c_max = round1 (if length vals > 0 then mx else 0) \<rparr>"
      by (simp add: climOf_def Let_def vals mn_def mx_def av)
    have t: "\<exists>k::int. round1 x = fdiv (real_of_int k) 10" for x
      using round1_tenths [of x] by blast
    have r: "round1 x = fdiv (real_of_int (jsRound (fmul x 10))) 10" for x
      by (simp add: round1_def)
    have 1: "\<exists>k::int. c_avg (climOf porData mo) = fdiv (real_of_int k) 10"
      unfolding e using t by simp
    have 2: "\<exists>k::int. c_min (climOf porData mo) = fdiv (real_of_int k) 10"
      unfolding e using t by simp
    have 3: "\<exists>k::int. c_max (climOf porData mo) = fdiv (real_of_int k) 10"
      unfolding e using t by simp
    have 4: "c_avg (climOf porData mo) = fdiv (real_of_int (jsRound (fmul av 10))) 10
              \<and> c_min (climOf porData mo) = fdiv (real_of_int (jsRound (fmul mn 10))) 10
              \<and> c_max (climOf porData mo) = fdiv (real_of_int (jsRound (fmul mx 10))) 10
              \<and> \<bar>c_avg (climOf porData mo) - av\<bar> \<le> 1 / 20 + (\<bar>av\<bar> + 1) / 2251799813685248
              \<and> \<bar>c_min (climOf porData mo) - mn\<bar> \<le> 1 / 20 + (\<bar>mn\<bar> + 1) / 2251799813685248
              \<and> \<bar>c_max (climOf porData mo) - mx\<bar> \<le> 1 / 20 + (\<bar>mx\<bar> + 1) / 2251799813685248"
      if "vals \<noteq> []"
    proof -
      from that have p: "length vals > 0" by simp
      have "c_avg (climOf porData mo) = round1 av" "c_min (climOf porData mo) = round1 mn"
        "c_max (climOf porData mo) = round1 mx"
        unfolding e using p by simp_all
      then show ?thesis
        using r [of av] r [of mn] r [of mx] round1_close [of av] round1_close [of mn] round1_close [of mx]
        by simp
    qed
    from 1 2 3 4 show ?thesis unfolding mn_def mx_def by blast
  qed
  show ?thesis
    unfolding Let_def sel_monthlyClim sel_projectedPeak
  proof (intro conjI allI impI)
    show "length (monthlyClimOf porData) = 9" by (rule len)
  next
    fix i :: nat
    assume i: "i < 9"
    note x = ent [OF refl refl, of "climMonths ! i", folded nth [OF i]]
    from x show "\<exists>k::int. c_avg (monthlyClimOf porData ! i) = fdiv (real_of_int k) 10" by blast
    from x show "\<exists>k::int. c_min (monthlyClimOf porData ! i) = fdiv (real_of_int k) 10" by blast
    from x show "\<exists>k::int. c_max (monthlyClimOf porData ! i) = fdiv (real_of_int k) 10" by blast
    assume ne: "monthlyBucket porData (climMonths ! i) \<noteq> []"
    from x ne show "c_avg (monthlyClimOf porData ! i) =
      fdiv (real_of_int (jsRound (fmul (fdiv (foldl (\<lambda>a b. fadd a b) 0 (monthlyBucket porData (climMonths ! i)))
        (real (length (monthlyBucket porData (climMonths ! i))))) 10))) 10" by blast
    from x ne show "c_min (monthlyClimOf porData ! i) =
      fdiv (real_of_int (jsRound (fmul (Min (set (monthlyBucket porData (climMonths ! i)))) 10))) 10" by blast
    from x ne show "c_max (monthlyClimOf porData ! i) =
      fdiv (real_of_int (jsRound (fmul (Max (set (monthlyBucket porData (climMonths ! i)))) 10))) 10" by blast
    from x ne show "\<bar>c_avg (monthlyClimOf porData ! i) - fdiv (foldl (\<lambda>a b. fadd a b) 0 (monthlyBucket porData (climMonths ! i)))
        (real (length (monthlyBucket porData (climMonths ! i))))\<bar>
      \<le> 1 / 20 + (\<bar>fdiv (foldl (\<lambda>a b. fadd a b) 0 (monthlyBucket porData (climMonths ! i)))
        (real (length (monthlyBucket porData (climMonths ! i))))\<bar> + 1) / 2251799813685248" by blast
    from x ne show "\<bar>c_min (monthlyClimOf porData ! i) - Min (set (monthlyBucket porData (climMonths ! i)))\<bar>
      \<le> 1 / 20 + (\<bar>Min (set (monthlyBucket porData (climMonths ! i)))\<bar> + 1) / 2251799813685248" by blast
    from x ne show "\<bar>c_max (monthlyClimOf porData ! i) - Max (set (monthlyBucket porData (climMonths ! i)))\<bar>
      \<le> 1 / 20 + (\<bar>Max (set (monthlyBucket porData (climMonths ! i)))\<bar> + 1) / 2251799813685248" by blast
  next
    fix p
    assume "projectPeak hydro = Some p"
    then show "\<exists>k::int. p = fdiv (real_of_int k) 10" by (rule proj)
  qed
qed

text \<open>
  January values 0.1 and 4.6: the double mean is 2.3499999999999996, its product with
  10 is 23.499999999999996, and the code returns 2.3.
\<close>

theorem C9_rounding_example:
  "monthlyBucket porTenths (climMonths ! 3) = [fl (1 / 10), fl (46 / 10)]
   \<and> fdiv (fadd (fadd 0 (fl (1 / 10))) (fl (46 / 10))) 2 = 1322932390540083 / 562949953421312
   \<and> fmul (1322932390540083 / 562949953421312) 10 = 6614661952700415 / 281474976710656
   \<and> jsRound (6614661952700415 / 281474976710656) = 23
   \<and> c_avg (monthlyClim (computeAnalytics utcZone clockJan porTenths stationA [] hydroTenths) ! 3) = fl (23 / 10)
   \<and> c_min (monthlyClim (computeAnalytics utcZone clockJan porTenths stationA [] hydroTenths) ! 3) = fl (1 / 10)
   \<and> c_max (monthlyClim (computeAnalytics utcZone clockJan porTenths stationA [] hydroTenths) ! 3) = fl (46 / 10)
   \<and> projectedPeak (computeAnalytics utcZone clockJan porTenths stationA [] hydroTenths) = Some (fl (4 / 10))
   \<and> (\<exists>k::int. fl (4 / 10) = fdiv (real_of_int k) 10)"
proof -
  let ?A = "computeAnalytics utcZone clockJan porTenths stationA [] hydroTenths"
  have v: "monthlyBucket porTenths (climMonths ! 3) = [fl (1 / 10), fl (46 / 10)]"
    by (simp add: monthlyBucket_def porTenths_def climMonths_def List.map_filter_simps)
  have m: "fdiv (fadd (fadd 0 (fl (1 / 10))) (fl (46 / 10))) 2 = 1322932390540083 / 562949953421312"
    by (simp add: fl_lit)
  have w: "fmul (1322932390540083 / 562949953421312) 10 = 6614661952700415 / 281474976710656"
    by (simp add: fl_lit)
  have j: "jsRound (6614661952700415 / 281474976710656) = 23"
    by (simp add: jsRound_def)
  have p: "projectedPeak ?A = Some (fl (4 / 10))"
    unfolding sel_projectedPeak
    by (simp add: projectPeak_cases hydroTenths_def hydroPoint_def List.map_filter_simps jsRound_def fl_lit)
  note c = C9_rounding_inside_engine [of utcZone clockJan porTenths stationA "[]" hydroTenths, unfolded Let_def]
  from c have "\<forall>i<9. monthlyBucket porTenths (climMonths ! i) \<noteq> [] \<longrightarrow>
      c_avg (monthlyClim ?A ! i) = fdiv (real_of_int (jsRound (fmul (fdiv (foldl (\<lambda>a b. fadd a b) 0 (monthlyBucket porTenths (climMonths ! i)))
          (real (length (monthlyBucket porTenths (climMonths ! i))))) 10))) 10
    \<and> c_min (monthlyClim ?A ! i) = fdiv (real_of_int (jsRound (fmul (Min (set (monthlyBucket porTenths (climMonths ! i)))) 10))) 10
    \<and> c_max (monthlyClim ?A ! i) = fdiv (real_of_int (jsRound (fmul (Max (set (monthlyBucket porTenths (climMonths ! i)))) 10))) 10"
    by blast
  then have "monthlyBucket porTenths (climMonths ! 3) \<noteq> [] \<longrightarrow>
      c_avg (monthlyClim ?A ! 3) = fdiv (real_of_int (jsRound (fmul (fdiv (foldl (\<lambda>a b. fadd a b) 0 (monthlyBucket porTenths (climMonths ! 3)))
          (real (length (monthlyBucket porTenths (climMonths ! 3))))) 10))) 10
    \<and> c_min (monthlyClim ?A ! 3) = fdiv (real_of_int (jsRound (fmul (Min (set (monthlyBucket porTenths (climMonths ! 3)))) 10))) 10
    \<and> c_max (monthlyClim ?A ! 3) = fdiv (real_of_int (jsRound (fmul (Max (set (monthlyBucket porTenths (climMonths ! 3)))) 10))) 10"
    by simp
  then have e: "c_avg (monthlyClim ?A ! 3) = fl (23 / 10)
      \<and> c_min (monthlyClim ?A ! 3) = fl (1 / 10) \<and> c_max (monthlyClim ?A ! 3) = fl (46 / 10)"
    unfolding v by (simp add: jsRound_def fl_lit)
  from c p have k: "\<exists>k::int. fl (4 / 10) = fdiv (real_of_int k) 10" by blast
  from v m w j e p k show ?thesis by blast
qed

text \<open>
  The claim as stated (the core returns the monthly average unrounded) fails: the
  January values 0.1 and 4.6 have the double mean 2.3499999999999996, and the code
  returns 2.3.
\<close>

theorem C9_monthly_average_is_rounded:
  "c_month (monthlyClim (computeAnalytics utcZone clockJan porTenths stationA [] []) ! 3) = ''Jan''
   \<and> c_avg (monthlyClim (computeAnalytics utcZone clockJan porTenths stationA [] []) ! 3)
       = 2589569785738035 / 1125899906842624
   \<and> fdiv (foldl (\<lambda>a b. fadd a b) 0 (monthlyBucket porTenths 0)) (real (length (monthlyBucket porTenths 0)))
       = 1322932390540083 / 562949953421312
   \<and> c_avg (monthlyClim (computeAnalytics utcZone clockJan porTenths stationA [] []) ! 3)
       \<noteq> fdiv (foldl (\<lambda>a b. fadd a b) 0 (monthlyBucket porTenths 0)) (real (length (monthlyBucket porTenths 0)))"
proof -
  have v: "monthlyBucket porTenths 0 = [fl (1 / 10), fl (46 / 10)]"
    by (simp add: monthlyBucket_def porTenths_def List.map_filter_simps)
  have m: "fdiv (foldl (\<lambda>a b. fadd a b) 0 (monthlyBucket porTenths 0)) (real (length (monthlyBucket porTenths 0)))
             = 1322932390540083 / 562949953421312"
    unfolding v by (simp add: fl_lit)
  have a: "c_avg (climOf porTenths 0) = 2589569785738035 / 1125899906842624"
    unfolding climOf_def Let_def v by (simp add: round1_def jsRound_def fl_lit)
  have n: "c_month (climOf porTenths 0) = ''Jan''"
    by (simp add: climOf_def Let_def MONTHS_def)
  from m a n show ?thesis
    by (simp add: sel_monthlyClim monthlyClimOf_def climMonths_def)
qed

end
